theory Spec2Isabelle
  imports Complex_Main
begin

section \<open>Values shared by the Batcher and the Prover\<close>

text \<open>
  A thrown \<open>Error\<close> object is a value carrying its \<open>message\<close>; a \<open>TypeError\<close>
  raised by the runtime itself (calling \<open>null\<close>, reading a property of \<open>null\<close>,
  \<open>reduce\<close> of an empty array without an initial value) is a separate constructor.
\<close>

datatype js_error = Error (message: string)

datatype exn = TypeError | Thrown js_error

subsection \<open>Numbers\<close>

text \<open>
  Block heights are integers far below \<open>2^53\<close>, where the arithmetic of JavaScript
  numbers is exact; they are modelled as \<open>int\<close>. Gas amounts and the gas multiplier are
  multiplied, and the product of two doubles is rounded; they are modelled as binary64
  values: a finite value is the rational it denotes, and every arithmetic result is rounded
  to the nearest representable value, ties to the even significand, with overflow to
  infinity and gradual underflow. The sign of a zero is not modelled: multiplication,
  comparison and \<open>~~\<close> do not tell \<open>-0\<close> from \<open>0\<close>.
\<close>

datatype number = Finite rat | PosInfinity | NegInfinity | NaN

text \<open>The number of binary digits of a positive integer.\<close>

function bitLength :: "int \<Rightarrow> int" where
  "bitLength n = (if n \<le> 0 then 0 else bitLength (n div 2) + 1)"
  by pat_completeness auto
termination
  by (relation "measure nat") auto

declare bitLength.simps [simp del]

definition pow2 :: "int \<Rightarrow> rat" where
  "pow2 k = (if 0 \<le> k then 2 ^ nat k else 1 / 2 ^ nat (- k))"

text \<open>For \<open>0 < a\<close>, the exponent \<open>e\<close> with \<open>2^e \<le> a < 2^(e+1)\<close>.\<close>

definition ilog2 :: "rat \<Rightarrow> int" where
  "ilog2 a =
     (if 1 \<le> a then bitLength \<lfloor>a\<rfloor> - 1
      else - bitLength (\<lceil>1 / a\<rceil> - 1))"

text \<open>
  Rounding of a real result to binary64. The exponent is at least \<open>-1022\<close> (below it
  the values are subnormal, with the spacing \<open>2^(-1074)\<close>); \<open>u\<close> is the spacing of the
  doubles around \<open>x\<close> and \<open>n\<close> the 53-bit significand below it. The rounded value
  \<open>n' * u\<close> has at most the significand \<open>2^53\<close>, so it reaches \<open>2^1024\<close>, where the
  result is infinite, exactly when the exponent is 1023 and the significand \<open>2^53\<close> (or
  the exponent is larger).
\<close>

definition roundDouble :: "rat \<Rightarrow> number" where
  "roundDouble x =
     (if x = 0 then Finite 0
      else
        (let a = \<bar>x\<bar>;
             e = max (ilog2 a) (- 1022);
             u = pow2 (e - 52);
             n = \<lfloor>a / u\<rfloor>;
             r = a / u - of_int n;
             n' = (if r < 1 / 2 then n
                   else if 1 / 2 < r then n + 1
                   else if even n then n else n + 1)
         in if 1024 \<le> e \<or> (e = 1023 \<and> n' = 2 ^ 53)
            then (if 0 < x then PosInfinity else NegInfinity)
            else Finite (sgn x * (of_int n' * u))))"

text \<open>The operator \<open>*\<close>.\<close>

definition js_mult :: "number \<Rightarrow> number \<Rightarrow> number" where
  "js_mult x y =
     (case (x, y) of
        (Finite a, Finite b) \<Rightarrow> roundDouble (a * b)
      | (NaN, _) \<Rightarrow> NaN
      | (_, NaN) \<Rightarrow> NaN
      | (Finite a, PosInfinity) \<Rightarrow>
          (if a = 0 then NaN else if 0 < a then PosInfinity else NegInfinity)
      | (Finite a, NegInfinity) \<Rightarrow>
          (if a = 0 then NaN else if 0 < a then NegInfinity else PosInfinity)
      | (PosInfinity, Finite b) \<Rightarrow>
          (if b = 0 then NaN else if 0 < b then PosInfinity else NegInfinity)
      | (NegInfinity, Finite b) \<Rightarrow>
          (if b = 0 then NaN else if 0 < b then NegInfinity else PosInfinity)
      | (PosInfinity, PosInfinity) \<Rightarrow> PosInfinity
      | (NegInfinity, NegInfinity) \<Rightarrow> PosInfinity
      | (PosInfinity, NegInfinity) \<Rightarrow> NegInfinity
      | (NegInfinity, PosInfinity) \<Rightarrow> NegInfinity)"

text \<open>The operator \<open><\<close>: false whenever an operand is \<open>NaN\<close>.\<close>

fun js_less :: "number \<Rightarrow> number \<Rightarrow> bool" where
  "js_less NaN y = False"
| "js_less x NaN = False"
| "js_less (Finite a) (Finite b) = (a < b)"
| "js_less (Finite a) PosInfinity = True"
| "js_less NegInfinity (Finite b) = True"
| "js_less NegInfinity PosInfinity = True"
| "js_less x y = False"

text \<open>Truthiness of a number, as \<open>||\<close> tests it: zero and \<open>NaN\<close> are falsy.\<close>

definition js_truthy :: "number \<Rightarrow> bool" where
  "js_truthy x = (x \<noteq> Finite 0 \<and> x \<noteq> NaN)"

text \<open>
  \<open>~~x\<close>: truncate towards zero, then wrap into the signed 32-bit range; \<open>NaN\<close> and the
  infinities give 0.
\<close>

definition toInt32 :: "number \<Rightarrow> int" where
  "toInt32 x =
     (case x of
        Finite a \<Rightarrow>
          (let t = (if 0 \<le> a then \<lfloor>a\<rfloor> else \<lceil>a\<rceil>)
           in (t + 2 ^ 31) mod 2 ^ 32 - 2 ^ 31)
      | _ \<Rightarrow> 0)"

text \<open>
  \<open>BigNumber.toNumber\<close> of ethers 5, for a non-negative big number: the value as a
  number when it has at most 53 bits, a thrown \<open>Error\<close> otherwise. The message of that
  error is abridged; nothing here reads it.
\<close>

definition toNumber :: "nat \<Rightarrow> js_error + number" where
  "toNumber n = (if n < 2 ^ 53 then Inr (Finite (of_nat n)) else Inl (Error ''overflow''))"

type_synonym BytesLike = string

datatype CrossChainMessage = CrossChainMessage nat

record Call =
  target :: string
  callData :: BytesLike

record CallWithMeta = Call +
  blockHeight :: int
  txHash :: string
  ccMessage :: CrossChainMessage
  err :: "js_error option"

text \<open>
  The object \<open>callProps\<close> that \<open>convertToCalls\<close> builds: every property of the call
  except \<open>blockHeight\<close>, in the order target, callData, txHash, message, err.
\<close>

type_synonym callProps = "string \<times> BytesLike \<times> string \<times> CrossChainMessage \<times> js_error option"

section \<open>utils.ts\<close>

definition splitArray :: "'a list \<Rightarrow> 'a list \<times> 'a list" where
  "splitArray array =
     (let middle = (length array + 1) div 2;
          firstHalf = take middle array;
          secondHalf = drop middle array
      in (firstHalf, secondHalf))"

section \<open>multicaller.ts\<close>

text \<open>\<open>String.prototype.includes\<close>: the pattern occurs as a contiguous substring.\<close>

fun str_includes :: "string \<Rightarrow> string \<Rightarrow> bool" where
  "str_includes [] pat = (pat = [])"
| "str_includes (c # cs) pat = (take (length pat) (c # cs) = pat \<or> str_includes cs pat)"

text \<open>
  The \<open>ethers\<close> contract is an external collaborator: gas estimation either throws an
  \<open>Error\<close> or yields a gas amount; sending the aggregate transaction and waiting for its
  inclusion either throws or yields the transaction hash.
\<close>

record Contract =
  estimateGas_tryAggregate :: "bool \<Rightarrow> callProps list \<Rightarrow> js_error + nat"
  tryAggregate :: "bool \<Rightarrow> callProps list \<Rightarrow> int \<Rightarrow> exn + string"

text \<open>
  The fields of the class, followed by three logs of what the object did to the outside:
  the batches it asked an estimate for, the transactions it sent (batch and override), and
  the callback invocations. \<open>singleCallGas\<close> is declared without an initialiser, so it is
  \<open>undefined\<close> (\<open>None\<close>) until somebody assigns it.
\<close>

record Multicaller =
  singleCallGas :: "number option"
  targetGas :: number
  gasMultiplier :: number
  estimated :: "callProps list list"
  submitted :: "(callProps list \<times> int) list"
  calledBack :: "(string \<times> CallWithMeta list) list"

type_synonym callback = "(string \<Rightarrow> CallWithMeta list \<Rightarrow> unit) option"

definition convertToCalls :: "CallWithMeta list \<Rightarrow> callProps list" where
  "convertToCalls calls =
     map (\<lambda>c. (target c, callData c, txHash c, ccMessage c, err c)) calls"

text \<open>
  \<open>singleCallGas * size * gasMultiplier\<close>: two multiplications of doubles, from the
  left; with \<open>singleCallGas\<close> undefined the product is \<open>NaN\<close>. The size is the length of
  a list.
\<close>

definition computeExpectedMulticallGas :: "Multicaller \<Rightarrow> nat \<Rightarrow> number" where
  "computeExpectedMulticallGas m sz =
     (case singleCallGas m of
        None \<Rightarrow> NaN
      | Some g \<Rightarrow> js_mult (js_mult g (Finite (of_nat sz))) (gasMultiplier m))"

definition isOvertargetGas :: "Multicaller \<Rightarrow> nat \<Rightarrow> bool" where
  "isOvertargetGas m sz = js_less (targetGas m) (computeExpectedMulticallGas m sz)"

text \<open>\<open>~~(estimatedGas.toNumber() * (this.gasMultiplier || 1.0))\<close>, after \<open>toNumber\<close>.\<close>

definition overrideGas :: "Multicaller \<Rightarrow> number \<Rightarrow> int" where
  "overrideGas m estimatedGas =
     toInt32 (js_mult estimatedGas
                (if js_truthy (gasMultiplier m) then gasMultiplier m else Finite 1))"

text \<open>
  \<open>multicall\<close> returns the failed calls or throws, together with the updated object. The
  recursion on the two halves does not terminate on the empty batch when its estimation
  fails (both halves are empty again), so the function lives in the option monad:
  \<open>None\<close> means that the call never returns. The conversion \<open>toNumber\<close> of the
  estimate stands outside the \<open>try\<close> block, so its error leaves \<open>multicall\<close>.
\<close>

partial_function (option) multicall ::
  "Contract \<Rightarrow> CallWithMeta list \<Rightarrow> callback \<Rightarrow> Multicaller
     \<Rightarrow> ((exn + CallWithMeta list) \<times> Multicaller) option"
where
  "multicall ct calls cb m =
     (let requireSuccess = True;
          m1 = m\<lparr>estimated := estimated m @ [convertToCalls calls]\<rparr>
      in case estimateGas_tryAggregate ct requireSuccess (convertToCalls calls) of
           Inl e \<Rightarrow>
             (let m2 = (if str_includes (message e) ''gas required exceeds allowance''
                        then m1\<lparr>singleCallGas := Some (Finite 0)\<rparr> else m1)
              in if length calls = 1
                 then Some (Inr (calls[0 := (calls ! 0)\<lparr>err := Some e\<rparr>]), m2)
                 else (case splitArray calls of
                         (firstHalf, secondHalf) \<Rightarrow>
                           Option.bind (multicall ct firstHalf cb m2) (\<lambda>(r1, m3).
                             case r1 of
                               Inl x \<Rightarrow> Some (Inl x, m3)
                             | Inr results \<Rightarrow>
                                 Option.bind (multicall ct secondHalf cb m3) (\<lambda>(r2, m4).
                                   case r2 of
                                     Inl x \<Rightarrow> Some (Inl x, m4)
                                   | Inr rest \<Rightarrow> Some (Inr (results @ rest), m4)))))
         | Inr estimatedGas \<Rightarrow>
             (case toNumber estimatedGas of
                Inl e \<Rightarrow> Some (Inl (Thrown e), m1)
              | Inr gas \<Rightarrow>
                  (case tryAggregate ct requireSuccess (convertToCalls calls)
                          (overrideGas m1 gas) of
                     Inl x \<Rightarrow> Some (Inl x, m1)
                   | Inr txh \<Rightarrow>
                       (let m2 = m1\<lparr>submitted := submitted m1 @
                                       [(convertToCalls calls, overrideGas m1 gas)]\<rparr>
                        in case cb of
                             None \<Rightarrow> Some (Inl TypeError, m2)
                           | Some f \<Rightarrow>
                               Some (Inr [],
                                     m2\<lparr>calledBack := calledBack m2 @ [(txh, calls)]\<rparr>)))))"

section \<open>prover.ts\<close>

text \<open>
  Modelled from the spec: the type \<open>MessageRelayerState\<close> is declared in
  \<open>service_types.ts\<close>, which is not among the sources; the spec gives it three integer
  fields, the ones that \<open>init\<close> writes.
\<close>

record MessageRelayerState =
  highestKnownL2 :: int
  highestProvenL2 :: int
  highestFinalizedL2 :: int

text \<open>The message statuses of the SDK and the blocks of the L2 provider.\<close>

datatype MessageStatus =
    UNCONFIRMED_L1_TO_L2_MESSAGE
  | FAILED_L1_TO_L2_MESSAGE
  | STATE_ROOT_NOT_PUBLISHED
  | READY_TO_PROVE
  | IN_CHALLENGE_PERIOD
  | READY_FOR_RELAY
  | RELAYED

record Transaction =
  hash :: string

record Block =
  number :: int
  transactions :: "Transaction list"

text \<open>
  The chain messenger is an external collaborator; each of its operations either throws or
  yields a value. \<open>getBlockWithTransactions\<close> yields \<open>null\<close> (\<open>None\<close>) for a missing
  block.
\<close>

record Messenger =
  getBlockNumber :: "exn + int"
  getBlockWithTransactions :: "int \<Rightarrow> exn + Block option"
  toCrossChainMessage :: "string \<Rightarrow> exn + CrossChainMessage"
  getMessageStatus :: "CrossChainMessage \<Rightarrow> exn + MessageStatus"
  estimateGas_proveMessage :: "string \<Rightarrow> exn + nat"
  populateTransaction_proveMessage :: "string \<Rightarrow> exn + BytesLike"
  OptimismPortal_target :: string

text \<open>
  The fields of the class that the operations read or write, followed by logs of what the
  object did to the outside: the relayed-message counter of the metrics, the lists handed
  to \<open>postMessage\<close>, the warnings (transaction hash and error message), and the heights
  asked from the provider. The gauges and the debug and info logs are left out; the
  metrics, the logger and \<open>postMessage\<close> are taken not to throw.
\<close>

record Prover =
  state :: MessageRelayerState
  fromL2TransactionIndex :: "int option"
  l2blockConfirmations :: int
  reorgSafetyDepth :: int
  multicaller :: Multicaller
  initalIteration :: bool
  numRelayedMessages :: nat
  posted :: "CallWithMeta list list"
  warned :: "(string \<times> string) list"
  fetched :: "int list"

text \<open>
  \<open>init\<close> after \<open>readStateFromFile\<close> has returned \<open>loaded\<close> (\<open>None\<close> when the file
  does not exist). A comparison with an undefined \<open>fromL2TransactionIndex\<close> is false.
\<close>

definition init :: "MessageRelayerState option \<Rightarrow> Prover \<Rightarrow> Prover" where
  "init loaded p =
     (let p1 = p\<lparr>state :=
                  (case loaded of
                     Some s \<Rightarrow> s
                   | None \<Rightarrow> \<lparr>highestKnownL2 = 0, highestProvenL2 = 0,
                              highestFinalizedL2 = 0\<rparr>)\<rparr>
      in case fromL2TransactionIndex p1 of
           None \<Rightarrow> p1
         | Some i \<Rightarrow>
             if highestProvenL2 (state p1) < i
             then p1\<lparr>state := (state p1)\<lparr>highestProvenL2 := i, highestFinalizedL2 := i\<rparr>\<rparr>
             else p1)"

definition updateHighestKnownL2 :: "int \<Rightarrow> Prover \<Rightarrow> Prover" where
  "updateHighestKnownL2 latest p = p\<lparr>state := (state p)\<lparr>highestKnownL2 := latest\<rparr>\<rparr>"

definition updateHighestProvenL2 :: "int \<Rightarrow> Prover \<Rightarrow> Prover" where
  "updateHighestProvenL2 latest p = p\<lparr>state := (state p)\<lparr>highestProvenL2 := latest\<rparr>\<rparr>"

definition updateHighestFinalizedL2 :: "int \<Rightarrow> Prover \<Rightarrow> Prover" where
  "updateHighestFinalizedL2 latest p = p\<lparr>state := (state p)\<lparr>highestFinalizedL2 := latest\<rparr>\<rparr>"

definition handleL2Reorg :: "int \<Rightarrow> Prover \<Rightarrow> Prover" where
  "handleL2Reorg latest p =
     (let p1 = updateHighestKnownL2 latest p
      in if highestProvenL2 (state p1) \<le> latest - reorgSafetyDepth p1 then p1
         else
           (let currentProven = highestProvenL2 (state p1);
                newProven = latest - reorgSafetyDepth p1;
                p2 = updateHighestProvenL2 newProven p1;
                diff = currentProven - newProven
            in updateHighestFinalizedL2 (highestFinalizedL2 (state p2) - diff) p2))"

definition startScanHeight :: "Prover \<Rightarrow> int \<times> Prover" where
  "startScanHeight p =
     (if initalIteration p
      then (highestFinalizedL2 (state p), p\<lparr>initalIteration := False\<rparr>)
      else (highestProvenL2 (state p) + 1, p))"

definition endScanHeight :: "Prover \<Rightarrow> int" where
  "endScanHeight p = highestKnownL2 (state p) - l2blockConfirmations p"

text \<open>
  \<open>reduce\<close> without an initial value throws a \<open>TypeError\<close> on the empty array and starts
  from the first element otherwise, so \<open>!maxCall\<close> is never true.
\<close>

definition reduceMaxCall :: "CallWithMeta list \<Rightarrow> exn + CallWithMeta" where
  "reduceMaxCall calldatas =
     (case calldatas of
        [] \<Rightarrow> Inl TypeError
      | c # cs \<Rightarrow>
          Inr (foldl (\<lambda>maxCall currentCall.
                        if blockHeight currentCall > blockHeight maxCall
                        then currentCall else maxCall) c cs))"

text \<open>The statement \<open>if (0 < highest) highest -= 1\<close>.\<close>

definition checkedHeight :: "int \<Rightarrow> int" where
  "checkedHeight highest = (if 0 < highest then highest - 1 else highest)"

definition updateHighestCheckedL2 :: "CallWithMeta list \<Rightarrow> Prover \<Rightarrow> (exn + bool) \<times> Prover" where
  "updateHighestCheckedL2 calldatas p =
     (case reduceMaxCall calldatas of
        Inl x \<Rightarrow> (Inl x, p)
      | Inr maxCall \<Rightarrow>
          (let highest = checkedHeight (blockHeight maxCall)
           in if highest \<le> highestProvenL2 (state p) then (Inr False, p)
              else (Inr True, updateHighestProvenL2 highest p)))"

text \<open>The loop that logs the failed calls; \<open>fail.err.message\<close> throws when \<open>err\<close> is null.\<close>

fun warnFaileds :: "CallWithMeta list \<Rightarrow> Prover \<Rightarrow> (exn + unit) \<times> Prover" where
  "warnFaileds [] p = (Inr (), p)"
| "warnFaileds (fail # rest) p =
     (case err fail of
        None \<Rightarrow> (Inl TypeError, p)
      | Some e \<Rightarrow> warnFaileds rest (p\<lparr>warned := warned p @ [(txHash fail, message e)]\<rparr>))"

text \<open>
  \<open>multicall\<close> writes the error slot of the very objects that \<open>calleds\<close> holds. The
  calls it writes are exactly the ones it returns, and \<open>succeeds\<close> keeps only calls
  whose hash is not among the returned ones, so the calls that reach
  \<open>updateHighestCheckedL2\<close> and \<open>postMessage\<close> are unchanged ones.
\<close>

definition handleMulticallResult ::
  "CallWithMeta list \<Rightarrow> CallWithMeta list \<Rightarrow> Prover \<Rightarrow> (exn + unit) \<times> Prover"
where
  "handleMulticallResult calleds faileds p =
     (let failedIds = set (map txHash faileds);
          succeeds = filter (\<lambda>call. txHash call \<notin> failedIds) calleds
      in case updateHighestCheckedL2 succeeds p of
           (Inl x, p1) \<Rightarrow> (Inl x, p1)
         | (Inr advanced, p1) \<Rightarrow>
             (let p2 = (if advanced
                        then p1\<lparr>numRelayedMessages := numRelayedMessages p1 + length succeeds\<rparr>
                        else p1);
                  p3 = p2\<lparr>posted := posted p2 @ [succeeds]\<rparr>
              in warnFaileds faileds p3))"

text \<open>
  The expression that both flush sites of the Prover evaluate:
  \<open>this.handleMulticallResult(calldatas, await this.multicaller.multicall(calldatas, null))\<close>.
\<close>

definition flush ::
  "Contract \<Rightarrow> CallWithMeta list \<Rightarrow> Prover \<Rightarrow> ((exn + unit) \<times> Prover) option"
where
  "flush ct calldatas p =
     Option.bind (multicall ct calldatas None (multicaller p)) (\<lambda>(r, m').
       case r of
         Inl x \<Rightarrow> Some (Inl x, p\<lparr>multicaller := m'\<rparr>)
       | Inr faileds \<Rightarrow> Some (handleMulticallResult calldatas faileds (p\<lparr>multicaller := m'\<rparr>)))"

text \<open>
  The one-off calibration of the Scanner: when \<open>singleCallGas\<close> is \<open>0\<close>, estimate the
  gas of a single prove call, convert it with \<open>toNumber\<close> and store it.
\<close>

definition calibrate :: "Messenger \<Rightarrow> string \<Rightarrow> Prover \<Rightarrow> exn + Prover" where
  "calibrate ms txh p =
     (if singleCallGas (multicaller p) = Some (Finite 0)
      then (case estimateGas_proveMessage ms txh of
              Inl x \<Rightarrow> Inl x
            | Inr big \<Rightarrow>
                (case toNumber big of
                   Inl e \<Rightarrow> Inl (Thrown e)
                 | Inr estimatedGas \<Rightarrow>
                     Inr (p\<lparr>multicaller :=
                            (multicaller p)\<lparr>singleCallGas := Some estimatedGas\<rparr>\<rparr>)))
      else Inr p)"

text \<open>
  The body of the loop over the transactions of a block, for one transaction; it yields
  the accumulator for the next iteration.
\<close>

definition handleTransaction ::
  "Messenger \<Rightarrow> Contract \<Rightarrow> Block \<Rightarrow> Transaction \<Rightarrow> CallWithMeta list \<Rightarrow> Prover
     \<Rightarrow> ((exn + CallWithMeta list) \<times> Prover) option"
where
  "handleTransaction ms ct block tx calldatas p =
     (let txh = hash tx
      in case toCrossChainMessage ms txh of
           Inl x \<Rightarrow> Some (Inl x, p)
         | Inr msg \<Rightarrow>
             (case getMessageStatus ms msg of
                Inl x \<Rightarrow> Some (Inl x, p)
              | Inr status \<Rightarrow>
                  if status \<noteq> READY_TO_PROVE then Some (Inr calldatas, p)
                  else
                    (case calibrate ms txh p of
                       Inl x \<Rightarrow> Some (Inl x, p)
                     | Inr p1 \<Rightarrow>
                         (case populateTransaction_proveMessage ms txh of
                            Inl x \<Rightarrow> Some (Inl x, p1)
                          | Inr cd \<Rightarrow>
                              (let calldatas1 = calldatas @
                                     [\<lparr>target = OptimismPortal_target ms, callData = cd,
                                       blockHeight = number block, txHash = txh,
                                       ccMessage = msg, err = None\<rparr>]
                               in if \<not> isOvertargetGas (multicaller p1) (length calldatas1)
                                  then Some (Inr calldatas1, p1)
                                  else Option.bind (flush ct calldatas1 p1) (\<lambda>(r, p2).
                                         case r of
                                           Inl x \<Rightarrow> Some (Inl x, p2)
                                         | Inr u \<Rightarrow> Some (Inr [], p2)))))))"

fun handleTransactions ::
  "Messenger \<Rightarrow> Contract \<Rightarrow> Block \<Rightarrow> Transaction list \<Rightarrow> CallWithMeta list \<Rightarrow> Prover
     \<Rightarrow> ((exn + CallWithMeta list) \<times> Prover) option"
where
  "handleTransactions ms ct block [] calldatas p = Some (Inr calldatas, p)"
| "handleTransactions ms ct block (tx # rest) calldatas p =
     Option.bind (handleTransaction ms ct block tx calldatas p) (\<lambda>(r, p1).
       case r of
         Inl x \<Rightarrow> Some (Inl x, p1)
       | Inr calldatas1 \<Rightarrow> handleTransactions ms ct block rest calldatas1 p1)"

definition handleSingleBlock ::
  "Messenger \<Rightarrow> Contract \<Rightarrow> int \<Rightarrow> CallWithMeta list \<Rightarrow> Prover
     \<Rightarrow> ((exn + CallWithMeta list) \<times> Prover) option"
where
  "handleSingleBlock ms ct height calldatas p =
     (let p0 = p\<lparr>fetched := fetched p @ [height]\<rparr>
      in case getBlockWithTransactions ms height of
           Inl x \<Rightarrow> Some (Inl x, p0)
         | Inr None \<Rightarrow> Some (Inr calldatas, p0)
         | Inr (Some block) \<Rightarrow>
             if length (transactions block) = 0 then Some (Inr calldatas, p0)
             else handleTransactions ms ct block (transactions block) calldatas p0)"

text \<open>
  The loop \<open>for (let h = this.startScanHeight(); h <= this.endScanHeight(); h++)\<close> from
  the current \<open>h\<close> on. The bound is read from the state again at every iteration.
\<close>

partial_function (option) scanLoop ::
  "Messenger \<Rightarrow> Contract \<Rightarrow> int \<Rightarrow> CallWithMeta list \<Rightarrow> Prover
     \<Rightarrow> ((exn + CallWithMeta list) \<times> Prover) option"
where
  "scanLoop ms ct h calldatas p =
     (if h \<le> endScanHeight p
      then Option.bind (handleSingleBlock ms ct h calldatas p) (\<lambda>(r, p1).
             case r of
               Inl x \<Rightarrow> Some (Inl x, p1)
             | Inr calldatas1 \<Rightarrow> scanLoop ms ct (h + 1) calldatas1 p1)
      else Some (Inr calldatas, p))"

definition handleMultipleBlock ::
  "Messenger \<Rightarrow> Contract \<Rightarrow> Prover \<Rightarrow> ((exn + unit) \<times> Prover) option"
where
  "handleMultipleBlock ms ct p =
     (case getBlockNumber ms of
        Inl x \<Rightarrow> Some (Inl x, p)
      | Inr latest \<Rightarrow>
          if latest = highestKnownL2 (state p) then Some (Inr (), p)
          else
            (let p1 = (if latest < highestKnownL2 (state p) then handleL2Reorg latest p else p);
                 p2 = updateHighestKnownL2 latest p1;
                 (start, p3) = startScanHeight p2
             in Option.bind (scanLoop ms ct start [] p3) (\<lambda>(r, p4).
                  case r of
                    Inl x \<Rightarrow> Some (Inl x, p4)
                  | Inr calldatas \<Rightarrow>
                      if 0 < length calldatas then flush ct calldatas p4
                      else Some (Inr (), p4))))"

section \<open>The claims' own words, and concrete inputs\<close>

text \<open>
  \<open>advanceProven\<close> as the specification words it: the maximum \<open>blockHeight\<close> minus one
  is the candidate, and the proven height moves to it only when it is strictly greater.
\<close>

definition advanceProven_spec :: "CallWithMeta list \<Rightarrow> Prover \<Rightarrow> bool \<times> Prover" where
  "advanceProven_spec calls p =
     (let candidate = Max (blockHeight ` set calls) - 1
      in if highestProvenL2 (state p) < candidate
         then (True, updateHighestProvenL2 candidate p)
         else (False, p))"

text \<open>
  The batches that the halving of the specification estimates, in the order of the
  recursion: the batch itself, then, when it has more than one call, those of its
  ceiling-sized first half and those of its second half.
\<close>

function halvingTrace :: "CallWithMeta list \<Rightarrow> callProps list list" where
  "halvingTrace calls =
     convertToCalls calls #
       (if length calls \<le> 1 then []
        else halvingTrace (take (nat \<lceil>rat_of_nat (length calls) / 2\<rceil>) calls) @
             halvingTrace (drop (nat \<lceil>rat_of_nat (length calls) / 2\<rceil>) calls))"
  by pat_completeness auto
termination
proof (relation "measure length")
  show "wf (measure length)" by simp
next
  fix calls :: "CallWithMeta list"
  assume a: "\<not> length calls \<le> 1"
  then have "rat_of_nat (length calls) / 2 \<le> of_int (int (length calls) - 1)"
    by simp
  then have "\<lceil>rat_of_nat (length calls) / 2\<rceil> \<le> int (length calls) - 1"
    by (rule ceiling_le)
  with a show "(take (nat \<lceil>rat_of_nat (length calls) / 2\<rceil>) calls, calls) \<in> measure length"
    by simp
next
  fix calls :: "CallWithMeta list"
  assume a: "\<not> length calls \<le> 1"
  then have "calls \<noteq> []" by auto
  then have "0 < rat_of_nat (length calls) / 2" by simp
  then have "0 < \<lceil>rat_of_nat (length calls) / 2\<rceil>" by simp
  with a show "(drop (nat \<lceil>rat_of_nat (length calls) / 2\<rceil>) calls, calls) \<in> measure length"
    by simp
qed

declare halvingTrace.simps [simp del]

text \<open>The invariant of the watermark state as the specification words it.\<close>

definition watermarkInvariant :: "Prover \<Rightarrow> bool" where
  "watermarkInvariant p =
     (0 \<le> highestFinalizedL2 (state p) \<and>
      highestFinalizedL2 (state p) \<le> highestProvenL2 (state p) \<and>
      highestProvenL2 (state p) \<le> highestKnownL2 (state p))"

text \<open>
  The Multicaller after the first statement of the catch block of \<open>multicall\<close>: the
  estimate of the batch is logged and the calibration is reset when the error message
  names the gas allowance.
\<close>

definition afterFailedEstimate :: "js_error \<Rightarrow> CallWithMeta list \<Rightarrow> Multicaller \<Rightarrow> Multicaller" where
  "afterFailedEstimate e calls m =
     (let m1 = m\<lparr>estimated := estimated m @ [convertToCalls calls]\<rparr>
      in if str_includes (message e) ''gas required exceeds allowance''
         then m1\<lparr>singleCallGas := Some (Finite 0)\<rparr> else m1)"

text \<open>
  The error that the estimation of the singleton batch of a call throws (\<open>None\<close> when it
  succeeds), the calls of a list that fail alone, each with its own error in its slot, and
  the singleton batches among the logged estimations.
\<close>

definition singletonError :: "Contract \<Rightarrow> CallWithMeta \<Rightarrow> js_error option" where
  "singletonError ct c =
     (case estimateGas_tryAggregate ct True (convertToCalls [c]) of
        Inl e \<Rightarrow> Some e
      | Inr g \<Rightarrow> None)"

definition singletonFaileds :: "Contract \<Rightarrow> CallWithMeta list \<Rightarrow> CallWithMeta list" where
  "singletonFaileds ct calls =
     map (\<lambda>c. c\<lparr>err := singletonError ct c\<rparr>) (filter (\<lambda>c. singletonError ct c \<noteq> None) calls)"

definition singletonEstimates :: "Multicaller \<Rightarrow> callProps list list" where
  "singletonEstimates m = filter (\<lambda>b. length b = 1) (estimated m)"

text \<open>
  What a step of the scan leaves as it is (the heights asked from the provider, the known
  height, the confirmation lag, the first-iteration flag), and how a step may change the
  calibration value: not at all, to 0, or to a successful single-call estimate.
\<close>

definition scanFrame :: "Prover \<Rightarrow> Prover \<Rightarrow> bool" where
  "scanFrame p p' =
     (fetched p' = fetched p \<and>
      highestKnownL2 (state p') = highestKnownL2 (state p) \<and>
      l2blockConfirmations p' = l2blockConfirmations p \<and>
      initalIteration p' = initalIteration p)"

definition calibrationStep :: "Messenger \<Rightarrow> Prover \<Rightarrow> Prover \<Rightarrow> bool" where
  "calibrationStep ms p p' =
     (singleCallGas (multicaller p') = singleCallGas (multicaller p) \<or>
      singleCallGas (multicaller p') = Some (Finite 0) \<or>
      (\<exists>txh estimatedGas.
         estimateGas_proveMessage ms txh = Inr estimatedGas \<and> estimatedGas < 2 ^ 53 \<and>
         singleCallGas (multicaller p') = Some (Finite (of_nat estimatedGas))))"

text \<open>
  The state in which \<open>handleMultipleBlock\<close> starts its loop, after the reorg handling and
  the update of the known height.
\<close>

definition beforeScan :: "int \<Rightarrow> Prover \<Rightarrow> Prover" where
  "beforeScan latest p =
     updateHighestKnownL2 latest
       (if latest < highestKnownL2 (state p) then handleL2Reorg latest p else p)"

text \<open>
  A freshly constructed Prover with the default gas budget \<open>1000000\<close> and multiplier
  \<open>1.1\<close> of the Multicaller (the literal \<open>1.1\<close> denotes the double nearest to
  \<open>11/10\<close>), and a call record at a given height with a given transaction hash.
\<close>

definition prover0 :: Prover where
  "prover0 =
     \<lparr>state = \<lparr>highestKnownL2 = 0, highestProvenL2 = 0, highestFinalizedL2 = 0\<rparr>,
      fromL2TransactionIndex = None, l2blockConfirmations = 0, reorgSafetyDepth = 0,
      multicaller = \<lparr>singleCallGas = None, targetGas = Finite 1000000,
                     gasMultiplier = roundDouble (11 / 10),
                     estimated = [], submitted = [], calledBack = []\<rparr>,
      initalIteration = True, numRelayedMessages = 0, posted = [], warned = [],
      fetched = []\<rparr>"

definition call0 :: "int \<Rightarrow> string \<Rightarrow> CallWithMeta" where
  "call0 h txh =
     \<lparr>target = ''portal'', callData = ''0x'', blockHeight = h, txHash = txh,
      ccMessage = CrossChainMessage 0, err = None\<rparr>"

text \<open>The state of the reorg example: known 120, proven 100, finalized 80, depth 5.\<close>

definition reorgProver :: Prover where
  "reorgProver =
     prover0\<lparr>state := \<lparr>highestKnownL2 = 120, highestProvenL2 = 100, highestFinalizedL2 = 80\<rparr>,
             reorgSafetyDepth := 5\<rparr>"

text \<open>A state whose finalized height lies further below the proven one: 120, 100, 10.\<close>

definition lowFinalizedProver :: Prover where
  "lowFinalizedProver =
     prover0\<lparr>state := \<lparr>highestKnownL2 = 120, highestProvenL2 = 100, highestFinalizedL2 = 10\<rparr>,
             reorgSafetyDepth := 5\<rparr>"

text \<open>A state near genesis: known 20, proven 10, finalized 10, depth 5.\<close>

definition genesisProver :: Prover where
  "genesisProver =
     prover0\<lparr>state := \<lparr>highestKnownL2 = 20, highestProvenL2 = 10, highestFinalizedL2 = 10\<rparr>,
             reorgSafetyDepth := 5\<rparr>"

text \<open>
  Contracts: one whose estimation always reverts; one whose estimation fails for every
  batch, a singleton batch with an error that names its transaction; one whose estimation
  succeeds exactly on singleton batches. All of them include every transaction they are
  sent. A callback that does nothing, and three calls at heights 7, 9 and 8.
\<close>

definition revertingContract :: Contract where
  "revertingContract =
     \<lparr>estimateGas_tryAggregate = (\<lambda>requireSuccess b. Inl (Error ''execution reverted'')),
       tryAggregate = (\<lambda>requireSuccess b gasLimit. Inr ''0xtx'')\<rparr>"

definition ownErrorContract :: Contract where
  "ownErrorContract =
     \<lparr>estimateGas_tryAggregate = (\<lambda>requireSuccess b.
         case b of
           [(t, d, h, msg, e)] \<Rightarrow> Inl (Error (''execution reverted: '' @ h))
         | _ \<Rightarrow> Inl (Error ''gas required exceeds allowance (30000000)'')),
       tryAggregate = (\<lambda>requireSuccess b gasLimit. Inr ''0xtx'')\<rparr>"

definition singletonOnlyContract :: Contract where
  "singletonOnlyContract =
     \<lparr>estimateGas_tryAggregate = (\<lambda>requireSuccess b.
         if length b = 1 then Inr 21000
         else Inl (Error ''gas required exceeds allowance (30000000)'')),
       tryAggregate = (\<lambda>requireSuccess b gasLimit. Inr ''0xtx'')\<rparr>"

definition noopCallback :: callback where
  "noopCallback = Some (\<lambda>txh calls. ())"

definition threeCalls :: "CallWithMeta list" where
  "threeCalls = [call0 7 ''0xa'', call0 9 ''0xb'', call0 8 ''0xc'']"

text \<open>
  Chains with latest block 3: one without any block content, one whose block 2 holds a
  single transaction that is ready to prove, and one whose block 1 holds two of them. A
  fresh Prover with a given calibration.
\<close>

definition quietChain :: Messenger where
  "quietChain =
     \<lparr>getBlockNumber = Inr 3,
      getBlockWithTransactions = (\<lambda>height. Inr None),
      toCrossChainMessage = (\<lambda>txh. Inr (CrossChainMessage 0)),
      getMessageStatus = (\<lambda>msg. Inr RELAYED),
      estimateGas_proveMessage = (\<lambda>txh. Inr 50000),
      populateTransaction_proveMessage = (\<lambda>txh. Inr ''0x''),
      OptimismPortal_target = ''portal''\<rparr>"

definition oneMessageChain :: Messenger where
  "oneMessageChain =
     \<lparr>getBlockNumber = Inr 3,
      getBlockWithTransactions = (\<lambda>height.
         if height = 2 then Inr (Some \<lparr>number = 2, transactions = [\<lparr>hash = ''0xa''\<rparr>]\<rparr>)
         else Inr None),
      toCrossChainMessage = (\<lambda>txh. Inr (CrossChainMessage 0)),
      getMessageStatus = (\<lambda>msg. Inr READY_TO_PROVE),
      estimateGas_proveMessage = (\<lambda>txh. Inr 50000),
      populateTransaction_proveMessage = (\<lambda>txh. Inr ''0x''),
      OptimismPortal_target = ''portal''\<rparr>"


definition calibratedProver :: "number \<Rightarrow> Prover" where
  "calibratedProver g = prover0\<lparr>multicaller := (multicaller prover0)\<lparr>singleCallGas := Some g\<rparr>\<rparr>"

section \<open>Reorg recovery\<close>

lemmas reorg_defs =
  handleL2Reorg_def Let_def updateHighestKnownL2_def updateHighestProvenL2_def
  updateHighestFinalizedL2_def

text \<open>
  Claim C1. When the proven height \<open>P\<close> exceeds \<open>L - D\<close>, \<open>handleL2Reorg(L)\<close> leaves
  the proven height at \<open>L - D\<close>, lowers the finalized height \<open>F\<close> by exactly
  \<open>P - (L - D)\<close>, and sets the known height to \<open>L\<close>.
\<close>

theorem handleL2Reorg_rewinds:
  assumes "latest - reorgSafetyDepth p < highestProvenL2 (state p)"
  shows "highestProvenL2 (state (handleL2Reorg latest p)) = latest - reorgSafetyDepth p \<and>
         highestFinalizedL2 (state (handleL2Reorg latest p)) =
           highestFinalizedL2 (state p) -
             (highestProvenL2 (state p) - (latest - reorgSafetyDepth p)) \<and>
         highestKnownL2 (state (handleL2Reorg latest p)) = latest"
  using assms by (simp add: reorg_defs)

text \<open>The example of the specification: proven 100, finalized 80, reorg to 90, depth 5.\<close>

theorem handleL2Reorg_rewinds_witness:
  "90 - reorgSafetyDepth reorgProver < highestProvenL2 (state reorgProver) \<and>
   highestProvenL2 (state (handleL2Reorg 90 reorgProver)) = 85 \<and>
   highestFinalizedL2 (state (handleL2Reorg 90 reorgProver)) = 65 \<and>
   highestKnownL2 (state (handleL2Reorg 90 reorgProver)) = 90"
  using handleL2Reorg_rewinds [of 90 reorgProver]
  by (simp add: reorgProver_def prover0_def)

text \<open>
  Claim C9. When the proven height \<open>P\<close> is at most \<open>L - D\<close>, \<open>handleL2Reorg(L)\<close>
  leaves the proven and the finalized height as they are and only sets the known height
  to \<open>L\<close>.
\<close>

theorem handleL2Reorg_keeps_watermarks:
  assumes "highestProvenL2 (state p) \<le> latest - reorgSafetyDepth p"
  shows "highestProvenL2 (state (handleL2Reorg latest p)) = highestProvenL2 (state p) \<and>
         highestFinalizedL2 (state (handleL2Reorg latest p)) = highestFinalizedL2 (state p) \<and>
         highestKnownL2 (state (handleL2Reorg latest p)) = latest"
  using assms by (simp add: reorg_defs)

theorem handleL2Reorg_keeps_watermarks_witness:
  "highestProvenL2 (state reorgProver) \<le> 110 - reorgSafetyDepth reorgProver \<and>
   highestProvenL2 (state (handleL2Reorg 110 reorgProver)) = 100 \<and>
   highestFinalizedL2 (state (handleL2Reorg 110 reorgProver)) = 80 \<and>
   highestKnownL2 (state (handleL2Reorg 110 reorgProver)) = 110"
  using handleL2Reorg_keeps_watermarks [of reorgProver 110]
  by (simp add: reorgProver_def prover0_def)

section \<open>The flush decision\<close>

text \<open>
  Values of the double arithmetic that the examples below need. The literal \<open>1.1\<close> is
  \<open>2476979795053773 / 2^51\<close>; \<open>900000 * 1.1\<close> rounds up to the double above
  \<open>990000\<close>, and \<open>1000000 * 1.1\<close> rounds to \<open>1100000\<close>.
\<close>

lemma double_1_1: "roundDouble (11 / 10) = Finite (2476979795053773 / 2251799813685248)"
  by code_simp

lemma truthy_1_1: "js_truthy (roundDouble (11 / 10))"
  by code_simp

lemma product_100000_9:
  "js_mult (js_mult (Finite 100000) (Finite 9)) (roundDouble (11 / 10)) =
     Finite (990000 + 1 / 2 ^ 33)"
  by code_simp

lemma product_100000_10:
  "js_mult (js_mult (Finite 100000) (Finite 10)) (roundDouble (11 / 10)) = Finite 1100000"
  by code_simp

lemma product_600000_1:
  "js_mult (js_mult (Finite 600000) (Finite 1)) (roundDouble (11 / 10)) =
     Finite 660000"
  by code_simp

lemma product_600000_2:
  "js_mult (js_mult (Finite 600000) (Finite 2)) (roundDouble (11 / 10)) =
     Finite 1320000"
  by code_simp

lemma product_50000_1:
  "js_mult (js_mult (Finite 50000) (Finite 1)) (roundDouble (11 / 10)) =
     Finite (55000 + 1 / 2 ^ 37)"
  by code_simp

lemmas double_products =
  product_100000_9 product_100000_10 product_600000_1 product_600000_2 product_50000_1


text \<open>
  The product is the rounded one: at a target of 990000 the ninth call is over the target,
  although \<open>9 * 100000 * 11/10\<close> is 990000; at a target of 1100000 the tenth call is
  not, although \<open>10 * 100000\<close> times the exact value of the double \<open>1.1\<close> is larger.
\<close>

lemma isOvertargetGas_rounds:
  "isOvertargetGas
     ((multicaller prover0)\<lparr>singleCallGas := Some (Finite 100000),
                             targetGas := Finite 990000\<rparr>) 9 = True \<and>
   isOvertargetGas
     ((multicaller prover0)\<lparr>singleCallGas := Some (Finite 100000),
                             targetGas := Finite 1100000\<rparr>) 10 = False"
  by (simp add: isOvertargetGas_def computeExpectedMulticallGas_def prover0_def double_products)

text \<open>
  The override of the gas limit is truncated after the rounding of the product: an
  estimate of 100 with the multiplier \<open>1.15\<close> gives 114 (\<open>100 * 1.15\<close> is
  114.99999999999999 in doubles).
\<close>

lemma overrideGas_truncates:
  "overrideGas (m\<lparr>gasMultiplier := roundDouble (115 / 100)\<rparr>) (Finite 100) = 114"
proof -
  have t: "js_truthy (roundDouble (115 / 100))" by code_simp
  have v: "toInt32 (js_mult (Finite 100) (roundDouble (115 / 100))) = 114" by code_simp
  show ?thesis using t v by (simp add: overrideGas_def)
qed

section \<open>Advancing the proven height\<close>

lemma foldl_maxCall_fold:
  "blockHeight (foldl (\<lambda>maxCall currentCall. if blockHeight currentCall > blockHeight maxCall
                        then currentCall else maxCall) c cs) = fold max (map blockHeight cs) (blockHeight c)"
proof (induction cs arbitrary: c)
  case Nil
  show ?case by simp
next
  case (Cons x xs)
  show ?case
  proof (cases "blockHeight x > blockHeight c")
    case True
    then have "max (blockHeight x) (blockHeight c) = blockHeight x" by simp
    with True show ?thesis using Cons.IH[of x] by simp
  next
    case False
    then have "max (blockHeight x) (blockHeight c) = blockHeight c" by simp
    with False show ?thesis using Cons.IH[of c] by simp
  qed
qed

lemma foldl_maxCall:
  "blockHeight (foldl (\<lambda>maxCall currentCall. if blockHeight currentCall > blockHeight maxCall
                        then currentCall else maxCall) c cs) = Max (blockHeight ` set (c # cs))"
proof -
  have "Max (blockHeight ` set (c # cs)) = Max (set (blockHeight c # map blockHeight cs))"
    by simp
  also have "\<dots> = fold max (map blockHeight cs) (blockHeight c)"
    by (rule Max.set_eq_fold)
  finally show ?thesis by (simp only: foldl_maxCall_fold)
qed

lemma reduceMaxCall_nonempty:
  "calls \<noteq> [] \<Longrightarrow> \<exists>c. reduceMaxCall calls = Inr c \<and> blockHeight c = Max (blockHeight ` set calls)"
  by (cases calls) (simp_all add: reduceMaxCall_def foldl_maxCall del: foldl.simps set_simps)

lemma updateHighestCheckedL2_nonempty:
  assumes "calls \<noteq> []"
  shows "updateHighestCheckedL2 calls p =
       (if highestProvenL2 (state p) < checkedHeight (Max (blockHeight ` set calls))
        then (Inr True, updateHighestProvenL2 (checkedHeight (Max (blockHeight ` set calls))) p)
        else (Inr False, p))"
  using reduceMaxCall_nonempty[OF assms]
  by (auto simp: updateHighestCheckedL2_def Let_def)

text \<open>
  Claim C5, amended. For a non-empty list, \<open>updateHighestCheckedL2\<close> takes the maximum
  \<open>blockHeight\<close>, minus one when that maximum is positive and as it is otherwise, as the
  candidate; it moves the proven height to the candidate exactly when the candidate is
  strictly greater, returns true exactly then, and never lowers the proven height. On a
  state whose proven height is not negative, the result is the one of the specification's
  wording (maximum minus one in every case).
\<close>

theorem updateHighestCheckedL2_advances:
  assumes "calls \<noteq> []"
  shows "updateHighestCheckedL2 calls p =
           (if highestProvenL2 (state p) < checkedHeight (Max (blockHeight ` set calls))
            then (Inr True, updateHighestProvenL2 (checkedHeight (Max (blockHeight ` set calls))) p)
            else (Inr False, p)) \<and>
         checkedHeight (Max (blockHeight ` set calls)) =
           (if 0 < Max (blockHeight ` set calls) then Max (blockHeight ` set calls) - 1
            else Max (blockHeight ` set calls)) \<and>
         highestProvenL2 (state p) \<le> highestProvenL2 (state (snd (updateHighestCheckedL2 calls p))) \<and>
         (0 \<le> highestProvenL2 (state p) \<longrightarrow>
            updateHighestCheckedL2 calls p =
              (Inr (fst (advanceProven_spec calls p)), snd (advanceProven_spec calls p)))"
  by (auto simp: updateHighestCheckedL2_nonempty[OF assms] checkedHeight_def advanceProven_spec_def
      Let_def updateHighestProvenL2_def)

theorem updateHighestCheckedL2_advances_witness:
  "threeCalls \<noteq> [] \<and> 0 \<le> highestProvenL2 (state prover0) \<and>
   updateHighestCheckedL2 threeCalls prover0 = (Inr True, updateHighestProvenL2 8 prover0) \<and>
   advanceProven_spec threeCalls prover0 = (True, updateHighestProvenL2 8 prover0)"
  using updateHighestCheckedL2_advances [of threeCalls prover0]
  by (simp add: threeCalls_def call0_def prover0_def checkedHeight_def advanceProven_spec_def
      updateHighestProvenL2_def)

text \<open>
  Claim C5 as stated fails for a call at height 0: the candidate is 0, not -1. The
  difference shows in the state that a reorg to height 3 leaves when the safety depth is 5
  (proven height -2): the code moves the proven height to 0, the wording to -1.
\<close>

theorem updateHighestCheckedL2_candidate_counterexample:
  "checkedHeight (Max (blockHeight ` set [call0 0 ''0xa''])) = 0 \<and>
   Max (blockHeight ` set [call0 0 ''0xa'']) - 1 = - 1 \<and>
   highestProvenL2 (state (handleL2Reorg 3 genesisProver)) = - 2 \<and>
   updateHighestCheckedL2 [call0 0 ''0xa''] (handleL2Reorg 3 genesisProver) =
     (Inr True, updateHighestProvenL2 0 (handleL2Reorg 3 genesisProver)) \<and>
   advanceProven_spec [call0 0 ''0xa''] (handleL2Reorg 3 genesisProver) =
     (True, updateHighestProvenL2 (- 1) (handleL2Reorg 3 genesisProver))"
  by (simp add: checkedHeight_def call0_def genesisProver_def prover0_def reorg_defs
      updateHighestCheckedL2_def reduceMaxCall_def advanceProven_spec_def)

section \<open>The watermark invariant\<close>

text \<open>
  Claim C4 as stated fails: \<open>init\<close> without a persisted record and with a positive
  \<open>fromL2TransactionIndex\<close> leaves the proven height above the known height 0;
  \<open>init\<close> with the persisted record 120, 50, 40 and the index 200 leaves the proven
  height 200 above the known height 120; and \<open>handleL2Reorg\<close> takes a finalized height of
  10 below zero when it rolls back by 15.
\<close>

theorem watermarkInvariant_counterexample:
  "\<not> watermarkInvariant (init None (prover0\<lparr>fromL2TransactionIndex := Some 5\<rparr>)) \<and>
   watermarkInvariant
     (prover0\<lparr>state := \<lparr>highestKnownL2 = 120, highestProvenL2 = 50,
                          highestFinalizedL2 = 40\<rparr>\<rparr>) \<and>
   \<not> watermarkInvariant
     (init (Some \<lparr>highestKnownL2 = 120, highestProvenL2 = 50, highestFinalizedL2 = 40\<rparr>)
        (prover0\<lparr>fromL2TransactionIndex := Some 200\<rparr>)) \<and>
   watermarkInvariant lowFinalizedProver \<and>
   \<not> watermarkInvariant (handleL2Reorg 90 lowFinalizedProver)"
  by (simp add: watermarkInvariant_def init_def prover0_def lowFinalizedProver_def reorg_defs)

text \<open>
  Claim C4, amended. \<open>handleL2Reorg(L)\<close> yields a state with
  \<open>0 \<le> finalized \<le> proven \<le> known\<close> whenever the state before has
  \<open>0 \<le> finalized \<le> proven\<close>, the safety depth is not negative and the gap between
  proven and finalized is at most \<open>L - D\<close>. \<open>init\<close> keeps the known height of the
  record it loads (0 without a record) and yields \<open>0 \<le> finalized \<le> proven\<close> when the
  record has \<open>0 \<le> finalized \<le> proven \<le> known\<close>; the invariant holds after it exactly
  when \<open>fromL2TransactionIndex\<close> is undefined or at most that known height: without a
  record, exactly when it is undefined or not positive, and then proven and finalized are
  equal.
\<close>

theorem watermarks_after_reorg_and_init:
  assumes "0 \<le> highestFinalizedL2 (state p)"
    and "highestFinalizedL2 (state p) \<le> highestProvenL2 (state p)"
    and "0 \<le> reorgSafetyDepth p"
    and "highestProvenL2 (state p) - highestFinalizedL2 (state p) \<le> latest - reorgSafetyDepth p"
    and "0 \<le> highestFinalizedL2 s"
    and "highestFinalizedL2 s \<le> highestProvenL2 s"
    and "highestProvenL2 s \<le> highestKnownL2 s"
  shows "watermarkInvariant (handleL2Reorg latest p) \<and>
         0 \<le> highestFinalizedL2 (state (init None q)) \<and>
         highestFinalizedL2 (state (init None q)) = highestProvenL2 (state (init None q)) \<and>
         highestKnownL2 (state (init None q)) = 0 \<and>
         watermarkInvariant (init None q) =
           (case fromL2TransactionIndex q of None \<Rightarrow> True | Some i \<Rightarrow> i \<le> 0) \<and>
         0 \<le> highestFinalizedL2 (state (init (Some s) q)) \<and>
         highestFinalizedL2 (state (init (Some s) q))
           \<le> highestProvenL2 (state (init (Some s) q)) \<and>
         highestKnownL2 (state (init (Some s) q)) = highestKnownL2 s \<and>
         watermarkInvariant (init (Some s) q) =
           (case fromL2TransactionIndex q of
              None \<Rightarrow> True
            | Some i \<Rightarrow> i \<le> highestKnownL2 s)"
proof -
  have r: "watermarkInvariant (handleL2Reorg latest p)"
    using assms(1-4) by (auto simp: watermarkInvariant_def reorg_defs)
  have n: "0 \<le> highestFinalizedL2 (state (init None q)) \<and>
         highestFinalizedL2 (state (init None q)) = highestProvenL2 (state (init None q)) \<and>
         highestKnownL2 (state (init None q)) = 0 \<and>
         watermarkInvariant (init None q) =
           (case fromL2TransactionIndex q of None \<Rightarrow> True | Some i \<Rightarrow> i \<le> 0)"
    by (auto simp: watermarkInvariant_def init_def Let_def split: option.splits)
  have l: "0 \<le> highestFinalizedL2 (state (init (Some s) q)) \<and>
         highestFinalizedL2 (state (init (Some s) q))
           \<le> highestProvenL2 (state (init (Some s) q)) \<and>
         highestKnownL2 (state (init (Some s) q)) = highestKnownL2 s \<and>
         watermarkInvariant (init (Some s) q) =
           (case fromL2TransactionIndex q of
              None \<Rightarrow> True
            | Some i \<Rightarrow> i \<le> highestKnownL2 s)"
    using assms(5-7)
    by (auto simp: watermarkInvariant_def init_def Let_def split: option.splits)
  from r n l show ?thesis by blast
qed

theorem watermarks_after_reorg_and_init_witness:
  "0 \<le> highestFinalizedL2 (state reorgProver) \<and>
   highestFinalizedL2 (state reorgProver) \<le> highestProvenL2 (state reorgProver) \<and>
   0 \<le> reorgSafetyDepth reorgProver \<and>
   highestProvenL2 (state reorgProver) - highestFinalizedL2 (state reorgProver)
     \<le> 90 - reorgSafetyDepth reorgProver \<and>
   0 \<le> highestFinalizedL2 (state reorgProver) \<and>
   highestProvenL2 (state reorgProver) \<le> highestKnownL2 (state reorgProver) \<and>
   watermarkInvariant (handleL2Reorg 90 reorgProver) \<and>
   watermarkInvariant (init None prover0) \<and>
   watermarkInvariant
     (init (Some (state reorgProver)) (prover0\<lparr>fromL2TransactionIndex := Some 110\<rparr>)) \<and>
   highestProvenL2
     (state (init (Some (state reorgProver)) (prover0\<lparr>fromL2TransactionIndex := Some 110\<rparr>))) =
     110"
  using watermarks_after_reorg_and_init
    [of reorgProver 90 "state reorgProver" "prover0\<lparr>fromL2TransactionIndex := Some 110\<rparr>"]
    watermarks_after_reorg_and_init [of reorgProver 90 "state reorgProver" prover0]
  by (simp add: reorgProver_def prover0_def init_def)

section \<open>Batch splitting\<close>

lemma multicall_estimated:
  assumes "estimateGas_tryAggregate ct True (convertToCalls calls) = Inr g"
  shows "multicall ct calls cb m =
     (let m1 = m\<lparr>estimated := estimated m @ [convertToCalls calls]\<rparr>
      in case toNumber g of
           Inl e \<Rightarrow> Some (Inl (Thrown e), m1)
         | Inr gas \<Rightarrow>
             (case tryAggregate ct True (convertToCalls calls) (overrideGas m1 gas) of
                Inl x \<Rightarrow> Some (Inl x, m1)
              | Inr txh \<Rightarrow>
                  (let m2 = m1\<lparr>submitted := submitted m1 @
                                  [(convertToCalls calls, overrideGas m1 gas)]\<rparr>
                   in case cb of
                        None \<Rightarrow> Some (Inl TypeError, m2)
                      | Some f \<Rightarrow>
                          Some (Inr [], m2\<lparr>calledBack := calledBack m2 @ [(txh, calls)]\<rparr>))))"
  by (subst multicall.simps) (simp add: assms Let_def)

lemma multicall_single_failed:
  assumes "estimateGas_tryAggregate ct True (convertToCalls calls) = Inl e" "length calls = 1"
  shows "multicall ct calls cb m =
     Some (Inr (calls[0 := (calls ! 0)\<lparr>err := Some e\<rparr>]), afterFailedEstimate e calls m)"
  using assms
  apply -
  apply (subst multicall.simps)
  apply (simp add: Let_def afterFailedEstimate_def)
  done

lemma multicall_split:
  assumes "estimateGas_tryAggregate ct True (convertToCalls calls) = Inl e" "length calls \<noteq> 1"
    and "splitArray calls = (firstHalf, secondHalf)"
  shows "multicall ct calls cb m =
     Option.bind (multicall ct firstHalf cb (afterFailedEstimate e calls m)) (\<lambda>(r1, m3).
        case r1 of
          Inl x \<Rightarrow> Some (Inl x, m3)
        | Inr results \<Rightarrow>
            Option.bind (multicall ct secondHalf cb m3) (\<lambda>(r2, m4).
              case r2 of
                Inl x \<Rightarrow> Some (Inl x, m4)
              | Inr rest \<Rightarrow> Some (Inr (results @ rest), m4)))"
  using assms
  apply -
  apply (subst multicall.simps)
  apply (simp add: Let_def afterFailedEstimate_def)
  done

lemma splitArray_append: "splitArray calls = (a, b) \<Longrightarrow> a @ b = calls"
  by (auto simp: splitArray_def Let_def)

lemma splitArray_length:
  assumes "splitArray calls = (a, b)"
  shows "length a = (length calls + 1) div 2" "length b = length calls div 2"
  using assms by (auto simp: splitArray_def Let_def)

lemma splitArray_shorter:
  assumes "splitArray calls = (a, b)" "2 \<le> length calls"
  shows "a \<noteq> []" "b \<noteq> []" "length a < length calls" "length b < length calls"
proof -
  have la: "length a = (length calls + 1) div 2" and lb: "length b = length calls div 2"
    using splitArray_length[OF assms(1)] by auto
  from la assms(2) have "0 < length a" by linarith
  then show "a \<noteq> []" by simp
  from lb assms(2) have "0 < length b" by linarith
  then show "b \<noteq> []" by simp
  from la assms(2) show "length a < length calls" by linarith
  from lb assms(2) show "length b < length calls" by linarith
qed

text \<open>\<open>multicall\<close> returns on every non-empty batch.\<close>

lemma multicall_returns:
  "calls \<noteq> [] \<Longrightarrow> \<exists>r m'. multicall ct calls cb m = Some (r, m')"
proof (induction calls arbitrary: m rule: length_induct)
  case (1 calls)
  show ?case
  proof (cases "estimateGas_tryAggregate ct True (convertToCalls calls)")
    case (Inr g)
    show ?thesis
      by (simp add: multicall_estimated[OF Inr] Let_def split: sum.split option.split)
  next
    case (Inl e)
    show ?thesis
    proof (cases "length calls = 1")
      case True
      then show ?thesis by (simp add: multicall_single_failed[OF Inl True])
    next
      case False
      from "1.prems" have "length calls \<noteq> 0" by simp
      with False have len: "2 \<le> length calls" by linarith
      obtain a b where sp: "splitArray calls = (a, b)" by (cases "splitArray calls")
      note sh = splitArray_shorter[OF sp len]
      from "1.IH" sh obtain r1 m3 where
        r1: "multicall ct a cb (afterFailedEstimate e calls m) = Some (r1, m3)" by blast
      from "1.IH" sh obtain r2 m4 where
        r2: "multicall ct b cb m3 = Some (r2, m4)" by blast
      show ?thesis
        by (simp add: multicall_split[OF Inl False sp] r1 r2 split: sum.split)
    qed
  qed
qed

text \<open>
  On the empty batch \<open>multicall\<close> never returns when the estimation fails: both halves
  are empty again. The Prover only passes non-empty batches.
\<close>

lemma multicall_empty_aux:
  "multicall ct calls cb m = Some y \<Longrightarrow>
     \<not> (calls = [] \<and> isl (estimateGas_tryAggregate ct True (convertToCalls [])))"
proof (induction rule: multicall.raw_induct[rotated, consumes 1, case_names step])
  case (step mc ct calls cb m y)
  show ?case
  proof
    assume a: "calls = [] \<and> isl (estimateGas_tryAggregate ct True (convertToCalls []))"
    then obtain e where e: "estimateGas_tryAggregate ct True (convertToCalls []) = Inl e"
      by (cases "estimateGas_tryAggregate ct True (convertToCalls [])") auto
    from step(2) a e obtain m2 r1 m3 where "mc ct [] cb m2 = Some (r1, m3)"
      by (auto simp: Let_def splitArray_def split: Option.bind_splits if_splits)
    from step(1)[OF this] a show False by simp
  qed
qed

lemma multicall_empty_diverges:
  assumes "estimateGas_tryAggregate ct True (convertToCalls []) = Inl e"
  shows "multicall ct [] cb m = None"
proof (cases "multicall ct [] cb m")
  case None
  then show ?thesis .
next
  case (Some y)
  from multicall_empty_aux[OF Some] assms show ?thesis by simp
qed

text \<open>
  Whenever \<open>multicall\<close> returns, the calibration value is the old one or 0, and the gas
  budget and the multiplier are the old ones.
\<close>

lemma multicall_gas:
  "multicall ct calls cb m = Some y \<Longrightarrow>
     (singleCallGas (snd y) = singleCallGas m \<or> singleCallGas (snd y) = Some (Finite 0)) \<and>
     targetGas (snd y) = targetGas m \<and> gasMultiplier (snd y) = gasMultiplier m"
proof (induction rule: multicall.raw_induct[rotated, consumes 1, case_names step])
  case (step mc ct calls cb m y)
  note prems = step(2)
  show ?case
  proof (cases "estimateGas_tryAggregate ct True (convertToCalls calls)")
    case (Inr g)
    with prems show ?thesis
      by (auto simp: Let_def split: sum.splits option.splits)
  next
    case (Inl e)
    let ?m2 = "afterFailedEstimate e calls m"
    have m2: "(singleCallGas ?m2 = singleCallGas m \<or> singleCallGas ?m2 = Some (Finite 0)) \<and>
        targetGas ?m2 = targetGas m \<and> gasMultiplier ?m2 = gasMultiplier m"
      by (simp add: afterFailedEstimate_def Let_def)
    show ?thesis
    proof (cases "length calls = 1")
      case True
      with prems Inl m2 show ?thesis
        by (auto simp: Let_def afterFailedEstimate_def)
    next
      case False
      obtain a b where sp: "splitArray calls = (a, b)" by (cases "splitArray calls")
      from prems Inl False sp obtain r1 m3 where
        r1: "mc ct a cb ?m2 = Some (r1, m3)"
        by (auto simp: Let_def afterFailedEstimate_def split: Option.bind_splits if_splits)
      from step(1)[OF r1] m2 have m3: "(singleCallGas m3 = singleCallGas m \<or> singleCallGas m3 = Some (Finite 0)) \<and>
        targetGas m3 = targetGas m \<and> gasMultiplier m3 = gasMultiplier m"
        by auto
      show ?thesis
      proof (cases r1)
        case (Inl x)
        with prems \<open>estimateGas_tryAggregate ct True (convertToCalls calls) = Inl e\<close> False sp r1 m3
        show ?thesis by (auto simp: Let_def afterFailedEstimate_def split: if_splits)
      next
        case (Inr results)
        with prems \<open>estimateGas_tryAggregate ct True (convertToCalls calls) = Inl e\<close> False sp r1
        obtain r2 m4 where r2: "mc ct b cb m3 = Some (r2, m4)" and y: "snd y = m4"
          by (auto simp: Let_def afterFailedEstimate_def split: Option.bind_splits if_splits sum.splits)
        from step(1)[OF r2] m3 y show ?thesis by auto
      qed
    qed
  qed
qed

lemma singletonEstimates_afterFailedEstimate:
  "singletonEstimates (afterFailedEstimate e calls m) =
     singletonEstimates m @ (if length calls = 1 then [convertToCalls calls] else [])"
  by (simp add: singletonEstimates_def afterFailedEstimate_def Let_def convertToCalls_def)

lemma estimated_afterFailedEstimate:
  "estimated (afterFailedEstimate e calls m) = estimated m @ [convertToCalls calls]"
  by (simp add: afterFailedEstimate_def Let_def)

lemma singletonFaileds_append:
  "singletonFaileds ct (a @ b) = singletonFaileds ct a @ singletonFaileds ct b"
  by (simp add: singletonFaileds_def)

text \<open>The first half of \<open>splitArray\<close> has the size \<open>Math.ceil(length / 2)\<close>.\<close>

lemma ceiling_half: "nat \<lceil>rat_of_nat n / 2\<rceil> = (n + 1) div 2"
proof -
  have "\<lceil>rat_of_nat n / 2\<rceil> = int ((n + 1) div 2)"
  proof (rule ceiling_unique)
    show "of_int (int ((n + 1) div 2)) - 1 < rat_of_nat n / 2"
    proof (cases "even n")
      case True
      then obtain k where "n = 2 * k" by (auto elim: evenE)
      then show ?thesis by simp
    next
      case False
      then obtain k where "n = 2 * k + 1" by (auto elim: oddE)
      then show ?thesis by (simp add: field_simps)
    qed
    show "rat_of_nat n / 2 \<le> of_int (int ((n + 1) div 2))"
    proof (cases "even n")
      case True
      then obtain k where "n = 2 * k" by (auto elim: evenE)
      then show ?thesis by simp
    next
      case False
      then obtain k where "n = 2 * k + 1" by (auto elim: oddE)
      then show ?thesis by (simp add: field_simps)
    qed
  qed
  then show ?thesis by simp
qed

lemma splitArray_ceiling:
  "splitArray calls =
     (take (nat \<lceil>rat_of_nat (length calls) / 2\<rceil>) calls,
      drop (nat \<lceil>rat_of_nat (length calls) / 2\<rceil>) calls)"
  by (simp add: splitArray_def Let_def ceiling_half)

lemma halvingTrace_short:
  "length calls \<le> 1 \<Longrightarrow> halvingTrace calls = [convertToCalls calls]"
  by (subst halvingTrace.simps) simp

lemma halvingTrace_split:
  assumes "splitArray calls = (a, b)" "2 \<le> length calls"
  shows "halvingTrace calls = convertToCalls calls # halvingTrace a @ halvingTrace b"
proof -
  from assms(1) have "a = take (nat \<lceil>rat_of_nat (length calls) / 2\<rceil>) calls"
    "b = drop (nat \<lceil>rat_of_nat (length calls) / 2\<rceil>) calls"
    by (simp_all add: splitArray_ceiling)
  with assms(2) show ?thesis
    by (subst halvingTrace.simps) simp
qed

text \<open>
  When every batch of two or more calls fails estimation, \<open>multicall\<close> estimates the
  batches of the halving in the order of the recursion, hence every call alone, once and in
  order, and returns the calls that fail alone; a call whose singleton estimation succeeds
  is sent, when its estimate fits a number, the sending succeeds and the callback is not
  \<open>null\<close>, and is not among them.
\<close>

lemma multicall_singletons:
  assumes A1: "\<And>b. 2 \<le> length b \<Longrightarrow> isl (estimateGas_tryAggregate ct True b)"
    and A2: "\<And>c g. c \<in> set calls \<Longrightarrow>
               estimateGas_tryAggregate ct True (convertToCalls [c]) = Inr g \<Longrightarrow>
               g < 2 ^ 53 \<and> cb \<noteq> None \<and>
               (\<forall>gl. \<not> isl (tryAggregate ct True (convertToCalls [c]) gl))"
    and ne: "calls \<noteq> []"
  shows "\<exists>m'. multicall ct calls cb m = Some (Inr (singletonFaileds ct calls), m') \<and>
           singletonEstimates m' = singletonEstimates m @ map (\<lambda>c. convertToCalls [c]) calls \<and>
           estimated m' = estimated m @ halvingTrace calls"
  using A2 ne
proof (induction calls arbitrary: m rule: length_induct)
  case (1 calls)
  show ?case
  proof (cases "length calls = 1")
    case True
    then obtain c where c: "calls = [c]" by (cases calls) auto
    have tr: "halvingTrace [c] = [convertToCalls [c]]" by (simp add: halvingTrace_short)
    show ?thesis
    proof (cases "estimateGas_tryAggregate ct True (convertToCalls [c])")
      case (Inl e)
      then have se: "singletonError ct c = Some e" by (simp add: singletonError_def)
      from Inl c have est: "estimateGas_tryAggregate ct True (convertToCalls calls) = Inl e" by simp
      note mc = multicall_single_failed[OF est True, of cb m]
      show ?thesis
        using se mc tr unfolding c
        by (simp add: singletonFaileds_def singletonEstimates_afterFailedEstimate
            estimated_afterFailedEstimate)
    next
      case (Inr g)
      then have se: "singletonError ct c = None" by (simp add: singletonError_def)
      from "1.prems"(1)[of c g] c Inr obtain f where f: "cb = Some f" and g: "g < 2 ^ 53"
        and tx: "\<And>gl. \<not> isl (tryAggregate ct True (convertToCalls [c]) gl)" by auto
      from g have tn: "toNumber g = Inr (Finite (of_nat g))" by (simp add: toNumber_def)
      from Inr c have est: "estimateGas_tryAggregate ct True (convertToCalls calls) = Inr g" by simp
      let ?m1 = "m\<lparr>estimated := estimated m @ [convertToCalls calls]\<rparr>"
      let ?gl = "overrideGas ?m1 (Finite (of_nat g))"
      from tx[of ?gl] c obtain txh where
        txh: "tryAggregate ct True (convertToCalls calls) ?gl = Inr txh"
        by (cases "tryAggregate ct True (convertToCalls calls) ?gl") auto
      note mc = multicall_estimated[OF est, of cb m]
      show ?thesis
        using se f tn txh mc tr unfolding c
        by (simp add: Let_def singletonFaileds_def singletonEstimates_def convertToCalls_def)
    qed
  next
    case False
    from "1.prems"(2) have "length calls \<noteq> 0" by simp
    with False have len: "2 \<le> length calls" by linarith
    then have "2 \<le> length (convertToCalls calls)" by (simp add: convertToCalls_def)
    from A1[OF this] obtain e where
      est: "estimateGas_tryAggregate ct True (convertToCalls calls) = Inl e"
      by (cases "estimateGas_tryAggregate ct True (convertToCalls calls)") auto
    obtain a b where sp: "splitArray calls = (a, b)" by (cases "splitArray calls")
    note sh = splitArray_shorter[OF sp len]
    have ab: "a @ b = calls" by (rule splitArray_append[OF sp])
    have seta: "set a \<subseteq> set calls" and setb: "set b \<subseteq> set calls"
      using ab by auto
    let ?m2 = "afterFailedEstimate e calls m"
    have "\<exists>m'. multicall ct a cb ?m2 = Some (Inr (singletonFaileds ct a), m') \<and>
           singletonEstimates m' = singletonEstimates ?m2 @ map (\<lambda>c. convertToCalls [c]) a \<and>
           estimated m' = estimated ?m2 @ halvingTrace a"
      using "1.IH" sh(1,3) "1.prems"(1) seta by (meson subsetD)
    then obtain m3 where r1: "multicall ct a cb ?m2 = Some (Inr (singletonFaileds ct a), m3)"
      and e3: "singletonEstimates m3 = singletonEstimates ?m2 @ map (\<lambda>c. convertToCalls [c]) a"
      and t3: "estimated m3 = estimated ?m2 @ halvingTrace a"
      by blast
    have "\<exists>m'. multicall ct b cb m3 = Some (Inr (singletonFaileds ct b), m') \<and>
           singletonEstimates m' = singletonEstimates m3 @ map (\<lambda>c. convertToCalls [c]) b \<and>
           estimated m' = estimated m3 @ halvingTrace b"
      using "1.IH" sh(2,4) "1.prems"(1) setb by (meson subsetD)
    then obtain m4 where r2: "multicall ct b cb m3 = Some (Inr (singletonFaileds ct b), m4)"
      and e4: "singletonEstimates m4 = singletonEstimates m3 @ map (\<lambda>c. convertToCalls [c]) b"
      and t4: "estimated m4 = estimated m3 @ halvingTrace b"
      by blast
    have "map (\<lambda>c. convertToCalls [c]) calls =
            map (\<lambda>c. convertToCalls [c]) a @ map (\<lambda>c. convertToCalls [c]) b"
      using ab by (metis map_append)
    moreover have "singletonFaileds ct calls = singletonFaileds ct a @ singletonFaileds ct b"
      using ab singletonFaileds_append by metis
    moreover note halvingTrace_split[OF sp len]
    ultimately show ?thesis
      using False
      by (simp add: multicall_split[OF est False sp] r1 r2 e3 e4 t3 t4
          singletonEstimates_afterFailedEstimate estimated_afterFailedEstimate)
  qed
qed

lemma singletonFaileds_all:
  assumes "\<forall>c\<in>set calls. singletonError ct c \<noteq> None"
  shows "singletonFaileds ct calls = map (\<lambda>c. c\<lparr>err := singletonError ct c\<rparr>) calls"
proof -
  from assms have "filter (\<lambda>c. singletonError ct c \<noteq> None) calls = calls"
    by (simp add: filter_id_conv)
  then show ?thesis by (simp add: singletonFaileds_def)
qed

text \<open>
  Claim C3, amended. For a batch of \<open>N \<ge> 1\<close> calls under an oracle that fails the
  estimation of every batch of two or more calls and of the singleton batch of every call,
  \<open>multicall\<close> performs exactly \<open>N\<close> singleton estimations, one per call in order, and
  returns a list of exactly \<open>N\<close> failed calls, equal to the input list in order, each
  with the error of its own singleton estimation in its error slot. Halving always splits
  into a ceiling-sized first half and the rest, and handles the first half before the
  second: the batches estimated are, in this order, the batch itself, those of the first
  half and those of the second half.
\<close>

theorem multicall_all_failing:
  assumes "\<forall>b. 2 \<le> length b \<longrightarrow> isl (estimateGas_tryAggregate ct True b)"
    and "\<forall>c\<in>set calls. singletonError ct c \<noteq> None"
    and "calls \<noteq> []"
  shows "(\<exists>m'. multicall ct calls cb m =
              Some (Inr (map (\<lambda>c. c\<lparr>err := singletonError ct c\<rparr>) calls), m') \<and>
            singletonEstimates m' = singletonEstimates m @ map (\<lambda>c. convertToCalls [c]) calls \<and>
            estimated m' = estimated m @ halvingTrace calls) \<and>
         length (map (\<lambda>c. c\<lparr>err := singletonError ct c\<rparr>) calls) = length calls \<and>
         splitArray calls =
           (take (nat \<lceil>rat_of_nat (length calls) / 2\<rceil>) calls,
            drop (nat \<lceil>rat_of_nat (length calls) / 2\<rceil>) calls)"
proof -
  have A2: "\<And>c g. c \<in> set calls \<Longrightarrow>
      estimateGas_tryAggregate ct True (convertToCalls [c]) = Inr g \<Longrightarrow>
      g < 2 ^ 53 \<and> cb \<noteq> None \<and> (\<forall>gl. \<not> isl (tryAggregate ct True (convertToCalls [c]) gl))"
    using assms(2) by (auto simp: singletonError_def)
  have "\<exists>m'. multicall ct calls cb m = Some (Inr (singletonFaileds ct calls), m') \<and>
           singletonEstimates m' = singletonEstimates m @ map (\<lambda>c. convertToCalls [c]) calls \<and>
           estimated m' = estimated m @ halvingTrace calls"
    using assms(1,3) A2 by (intro multicall_singletons) auto
  then show ?thesis
    by (simp add: singletonFaileds_all[OF assms(2)] splitArray_ceiling)
qed

lemma ownError_A1:
  "\<forall>b. 2 \<le> length b \<longrightarrow> isl (estimateGas_tryAggregate ownErrorContract True b)"
  by (auto simp: ownErrorContract_def split: list.splits)

lemma ownError_single:
  "singletonError ownErrorContract c = Some (Error (''execution reverted: '' @ txHash c))"
  by (simp add: singletonError_def ownErrorContract_def convertToCalls_def)

lemma halvingTrace_threeCalls:
  "halvingTrace threeCalls =
     [convertToCalls [call0 7 ''0xa'', call0 9 ''0xb'', call0 8 ''0xc''],
      convertToCalls [call0 7 ''0xa'', call0 9 ''0xb''],
      convertToCalls [call0 7 ''0xa''], convertToCalls [call0 9 ''0xb''],
      convertToCalls [call0 8 ''0xc'']]"
proof -
  have s3: "splitArray threeCalls = ([call0 7 ''0xa'', call0 9 ''0xb''], [call0 8 ''0xc''])"
    by (simp add: splitArray_def threeCalls_def)
  have s2: "splitArray [call0 7 ''0xa'', call0 9 ''0xb''] = ([call0 7 ''0xa''], [call0 9 ''0xb''])"
    by (simp add: splitArray_def)
  have l3: "2 \<le> length threeCalls" by (simp add: threeCalls_def)
  have l2: "2 \<le> length [call0 7 ''0xa'', call0 9 ''0xb'']" by simp
  show ?thesis
    by (simp add: halvingTrace_split[OF s3 l3] halvingTrace_split[OF s2 l2] halvingTrace_short)
      (simp add: threeCalls_def)
qed

theorem multicall_all_failing_witness:
  "map_option fst (multicall ownErrorContract threeCalls None (multicaller prover0)) =
     Some (Inr [(call0 7 ''0xa'')\<lparr>err := Some (Error ''execution reverted: 0xa'')\<rparr>,
                (call0 9 ''0xb'')\<lparr>err := Some (Error ''execution reverted: 0xb'')\<rparr>,
                (call0 8 ''0xc'')\<lparr>err := Some (Error ''execution reverted: 0xc'')\<rparr>]) \<and>
   map_option (singletonEstimates \<circ> snd)
       (multicall ownErrorContract threeCalls None (multicaller prover0)) =
     Some [convertToCalls [call0 7 ''0xa''], convertToCalls [call0 9 ''0xb''],
           convertToCalls [call0 8 ''0xc'']] \<and>
   map_option (estimated \<circ> snd)
       (multicall ownErrorContract threeCalls None (multicaller prover0)) =
     Some [convertToCalls [call0 7 ''0xa'', call0 9 ''0xb'', call0 8 ''0xc''],
           convertToCalls [call0 7 ''0xa'', call0 9 ''0xb''],
           convertToCalls [call0 7 ''0xa''], convertToCalls [call0 9 ''0xb''],
           convertToCalls [call0 8 ''0xc'']] \<and>
   splitArray threeCalls = ([call0 7 ''0xa'', call0 9 ''0xb''], [call0 8 ''0xc''])"
proof -
  have h2: "\<forall>c\<in>set threeCalls. singletonError ownErrorContract c \<noteq> None"
    by (simp add: ownError_single)
  have h3: "threeCalls \<noteq> []" by (simp add: threeCalls_def)
  from multicall_all_failing [OF ownError_A1 h2 h3, of None "multicaller prover0"]
  obtain m' where
    r: "multicall ownErrorContract threeCalls None (multicaller prover0) =
          Some (Inr (map (\<lambda>c. c\<lparr>err := singletonError ownErrorContract c\<rparr>) threeCalls), m')"
    and e: "singletonEstimates m' =
          singletonEstimates (multicaller prover0) @ map (\<lambda>c. convertToCalls [c]) threeCalls"
    and t: "estimated m' = estimated (multicaller prover0) @ halvingTrace threeCalls"
    by blast
  have f1: "map_option fst (multicall ownErrorContract threeCalls None (multicaller prover0)) =
     Some (Inr [(call0 7 ''0xa'')\<lparr>err := Some (Error ''execution reverted: 0xa'')\<rparr>,
                (call0 9 ''0xb'')\<lparr>err := Some (Error ''execution reverted: 0xb'')\<rparr>,
                (call0 8 ''0xc'')\<lparr>err := Some (Error ''execution reverted: 0xc'')\<rparr>])"
    using r by (simp add: ownError_single threeCalls_def call0_def)
  have f2: "map_option (singletonEstimates \<circ> snd)
       (multicall ownErrorContract threeCalls None (multicaller prover0)) =
     Some [convertToCalls [call0 7 ''0xa''], convertToCalls [call0 9 ''0xb''],
           convertToCalls [call0 8 ''0xc'']]"
    using r e by (simp add: threeCalls_def singletonEstimates_def prover0_def)
  have f3: "map_option (estimated \<circ> snd)
       (multicall ownErrorContract threeCalls None (multicaller prover0)) =
     Some [convertToCalls [call0 7 ''0xa'', call0 9 ''0xb'', call0 8 ''0xc''],
           convertToCalls [call0 7 ''0xa'', call0 9 ''0xb''],
           convertToCalls [call0 7 ''0xa''], convertToCalls [call0 9 ''0xb''],
           convertToCalls [call0 8 ''0xc'']]"
    using r t by (simp add: halvingTrace_threeCalls prover0_def)
  have f4: "splitArray threeCalls = ([call0 7 ''0xa'', call0 9 ''0xb''], [call0 8 ''0xc''])"
    by (simp add: splitArray_def threeCalls_def)
  from f1 f2 f3 f4 show ?thesis by blast
qed

lemma singletonOnly_A1:
  "2 \<le> length b \<Longrightarrow> isl (estimateGas_tryAggregate singletonOnlyContract True b)"
  by (auto simp: singletonOnlyContract_def)

lemma singletonOnly_single: "singletonError singletonOnlyContract c = None"
  by (simp add: singletonError_def singletonOnlyContract_def convertToCalls_def)

text \<open>
  Claim C3 as stated fails: under an oracle that fails every estimation except on
  singleton batches, each call is estimated alone, succeeds and is sent, and the returned
  list of failed calls is empty, not of length \<open>N\<close>.
\<close>

theorem multicall_singletons_succeed_counterexample:
  "map_option fst (multicall singletonOnlyContract [call0 7 ''0xa'', call0 9 ''0xb''] noopCallback
       (multicaller prover0)) = Some (Inr [])"
proof -
  have "\<exists>m'. multicall singletonOnlyContract [call0 7 ''0xa'', call0 9 ''0xb''] noopCallback
                (multicaller prover0) =
      Some (Inr (singletonFaileds singletonOnlyContract [call0 7 ''0xa'', call0 9 ''0xb'']), m') \<and>
      singletonEstimates m' = singletonEstimates (multicaller prover0) @
        map (\<lambda>c. convertToCalls [c]) [call0 7 ''0xa'', call0 9 ''0xb''] \<and>
      estimated m' = estimated (multicaller prover0) @
        halvingTrace [call0 7 ''0xa'', call0 9 ''0xb'']"
    by (rule multicall_singletons)
      (auto simp: singletonOnly_A1 noopCallback_def singletonOnlyContract_def convertToCalls_def)
  then show ?thesis by (auto simp: singletonFaileds_def singletonOnly_single)
qed

section \<open>Flushes of the Prover\<close>

text \<open>
  With \<open>null\<close> as callback, \<open>multicall\<close> returns normally only when no estimation
  succeeded, and then it returns every call; \<open>handleMulticallResult\<close> throws when every
  call failed; so every flush of a non-empty list throws.
\<close>

lemma multicall_null_callback:
  "calls \<noteq> [] \<Longrightarrow> multicall ct calls None m = Some (Inr faileds, m') \<Longrightarrow>
     map txHash faileds = map txHash calls"
proof (induction calls arbitrary: m m' faileds rule: length_induct)
  case (1 calls)
  show ?case
  proof (cases "estimateGas_tryAggregate ct True (convertToCalls calls)")
    case (Inr g)
    with "1.prems"(2) show ?thesis
      by (simp add: multicall_estimated[OF Inr] Let_def split: sum.splits)
  next
    case (Inl e)
    show ?thesis
    proof (cases "length calls = 1")
      case True
      then obtain c where c: "calls = [c]" by (cases calls) auto
      note mc = multicall_single_failed[OF Inl True, of None m]
      with "1.prems"(2) show ?thesis unfolding c by auto
    next
      case False
      from "1.prems"(1) have "length calls \<noteq> 0" by simp
      with False have len: "2 \<le> length calls" by linarith
      obtain a b where sp: "splitArray calls = (a, b)" by (cases "splitArray calls")
      note sh = splitArray_shorter[OF sp len]
      have ab: "a @ b = calls" by (rule splitArray_append[OF sp])
      from "1.prems"(2) obtain f1 m3 f2 where
        r1: "multicall ct a None (afterFailedEstimate e calls m) = Some (Inr f1, m3)" and
        r2: "multicall ct b None m3 = Some (Inr f2, m')" and f: "faileds = f1 @ f2"
        by (auto simp: multicall_split[OF Inl False sp] split: Option.bind_splits sum.splits)
      from "1.IH" sh(1,3) r1 have "map txHash f1 = map txHash a" by blast
      moreover from "1.IH" sh(2,4) r2 have "map txHash f2 = map txHash b" by blast
      ultimately show ?thesis using f ab by (metis map_append)
    qed
  qed
qed

lemma handleMulticallResult_all_failed:
  assumes "map txHash faileds = map txHash calleds"
  shows "handleMulticallResult calleds faileds p = (Inl TypeError, p)"
proof -
  have "filter (\<lambda>call. txHash call \<notin> set (map txHash faileds)) calleds = []"
    unfolding assms by (simp add: filter_empty_conv)
  then show ?thesis
    by (simp add: handleMulticallResult_def Let_def updateHighestCheckedL2_def reduceMaxCall_def)
qed

lemma flush_throws:
  assumes "calls \<noteq> []"
  shows "\<exists>x p'. flush ct calls p = Some (Inl x, p')"
proof -
  from multicall_returns[OF assms] obtain r m' where
    r: "multicall ct calls None (multicaller p) = Some (r, m')" by blast
  show ?thesis
  proof (cases r)
    case (Inl x)
    with r show ?thesis by (simp add: flush_def)
  next
    case (Inr faileds)
    with r multicall_null_callback[OF assms] have "map txHash faileds = map txHash calls" by blast
    from handleMulticallResult_all_failed[OF this] r Inr show ?thesis by (simp add: flush_def)
  qed
qed

text \<open>
  Claim C2: \<open>updateHighestCheckedL2\<close> on the empty list, and \<open>handleMulticallResult\<close>
  when every attempted call failed, must not throw. The code throws a \<open>TypeError\<close> in
  both, here also for the flush of one call whose estimation reverts.
\<close>

theorem updateHighestCheckedL2_empty_throws:
  "updateHighestCheckedL2 [] p = (Inl TypeError, p) \<and>
   handleMulticallResult [c] [c\<lparr>err := Some e\<rparr>] p = (Inl TypeError, p) \<and>
   map_option fst (multicall revertingContract [call0 5 ''0xa''] None (multicaller prover0)) =
     Some (Inr [(call0 5 ''0xa'')\<lparr>err := Some (Error ''execution reverted'')\<rparr>]) \<and>
   map_option fst (flush revertingContract [call0 5 ''0xa''] prover0) = Some (Inl TypeError)"
proof -
  have est: "estimateGas_tryAggregate revertingContract True (convertToCalls [call0 5 ''0xa'']) =
      Inl (Error ''execution reverted'')"
    by (simp add: revertingContract_def)
  have len: "length [call0 5 ''0xa''] = 1" by simp
  note mc = multicall_single_failed[OF est len, of None "multicaller prover0"]
  show ?thesis
    by (simp add: mc flush_def handleMulticallResult_def updateHighestCheckedL2_def
        reduceMaxCall_def)
qed



section \<open>What a scan step changes\<close>

lemma scanFrame_refl: "scanFrame p p"
  by (simp add: scanFrame_def)

lemma scanFrame_trans: "scanFrame p q \<Longrightarrow> scanFrame q r \<Longrightarrow> scanFrame p r"
  by (simp add: scanFrame_def)

lemma calibrationStep_refl: "calibrationStep ms p p"
  by (simp add: calibrationStep_def)

lemma calibrationStep_trans:
  "calibrationStep ms p q \<Longrightarrow> calibrationStep ms q r \<Longrightarrow> calibrationStep ms p r"
  unfolding calibrationStep_def by metis

lemma warnFaileds_frame:
  "warnFaileds fs p = (r, p') \<Longrightarrow> scanFrame p p' \<and> multicaller p' = multicaller p"
proof (induction fs arbitrary: p)
  case Nil
  then show ?case by (auto simp: scanFrame_def)
next
  case (Cons f fs)
  show ?case
  proof (cases "err f")
    case None
    with Cons.prems show ?thesis by (auto simp: scanFrame_def)
  next
    case (Some e)
    with Cons.prems have "warnFaileds fs (p\<lparr>warned := warned p @ [(txHash f, message e)]\<rparr>) = (r, p')"
      by simp
    from Cons.IH[OF this] show ?thesis by (simp add: scanFrame_def)
  qed
qed

lemma updateHighestCheckedL2_frame:
  "updateHighestCheckedL2 calls p = (r, p') \<Longrightarrow> scanFrame p p' \<and> multicaller p' = multicaller p"
  by (auto simp: updateHighestCheckedL2_def Let_def updateHighestProvenL2_def scanFrame_def
      split: sum.splits if_splits)

lemma handleMulticallResult_frame:
  assumes "handleMulticallResult calleds faileds p = (r, p')"
  shows "scanFrame p p' \<and> multicaller p' = multicaller p"
proof -
  let ?succeeds = "filter (\<lambda>call. txHash call \<notin> set (map txHash faileds)) calleds"
  obtain r1 p1 where u: "updateHighestCheckedL2 ?succeeds p = (r1, p1)"
    by (cases "updateHighestCheckedL2 ?succeeds p")
  note f1 = updateHighestCheckedL2_frame[OF u]
  show ?thesis
  proof (cases r1)
    case (Inl x)
    with assms u f1 show ?thesis by (simp add: handleMulticallResult_def Let_def)
  next
    case (Inr advanced)
    let ?p2 = "if advanced then p1\<lparr>numRelayedMessages := numRelayedMessages p1 + length ?succeeds\<rparr> else p1"
    let ?p3 = "?p2\<lparr>posted := posted ?p2 @ [?succeeds]\<rparr>"
    from assms u Inr have w: "warnFaileds faileds ?p3 = (r, p')"
      by (cases advanced) (simp_all add: handleMulticallResult_def Let_def)
    have f3: "scanFrame p1 ?p3 \<and> multicaller ?p3 = multicaller p1"
      by (simp add: scanFrame_def)
    note f4 = warnFaileds_frame[OF w]
    from f1 f3 have "scanFrame p ?p3" by (blast intro: scanFrame_trans)
    with f4 have "scanFrame p p'" by (blast intro: scanFrame_trans)
    moreover from f1 f3 f4 have "multicaller p' = multicaller p" by simp
    ultimately show ?thesis by simp
  qed
qed

lemma flush_frame:
  assumes "flush ct calls p = Some (r, p')"
  shows "scanFrame p p' \<and> calibrationStep ms p p'"
proof -
  from assms obtain r0 m' where mc: "multicall ct calls None (multicaller p) = Some (r0, m')"
    by (auto simp: flush_def split: Option.bind_splits)
  from multicall_gas[OF mc]
  have g: "singleCallGas m' = singleCallGas (multicaller p) \<or> singleCallGas m' = Some (Finite 0)" by simp
  let ?q = "p\<lparr>multicaller := m'\<rparr>"
  have q: "scanFrame p ?q \<and> calibrationStep ms p ?q"
    using g by (auto simp: scanFrame_def calibrationStep_def)
  show ?thesis
  proof (cases r0)
    case (Inl x)
    with assms mc have "p' = ?q" by (simp add: flush_def)
    with q show ?thesis by simp
  next
    case (Inr faileds)
    with assms mc have "handleMulticallResult calls faileds ?q = (r, p')" by (simp add: flush_def)
    from handleMulticallResult_frame[OF this] q show ?thesis
      by (auto simp: scanFrame_def calibrationStep_def)
  qed
qed

lemma flush_returns: "calls \<noteq> [] \<Longrightarrow> \<exists>r p'. flush ct calls p = Some (r, p')"
  using flush_throws by blast

lemma calibrate_frame:
  "calibrate ms txh p = Inr p1 \<Longrightarrow> scanFrame p p1 \<and> calibrationStep ms p p1"
  by (auto simp: calibrate_def scanFrame_def calibrationStep_def toNumber_def
      split: if_splits sum.splits)

text \<open>
  Handling a transaction, the transactions of a block, and a block always returns; it
  keeps the frame of the scan and changes the calibration by calibration steps only.
\<close>

lemma handleTransaction_frame:
  "\<exists>r p'. handleTransaction ms ct block tx calldatas p = Some (r, p') \<and>
     scanFrame p p' \<and> calibrationStep ms p p'"
proof (cases "toCrossChainMessage ms (hash tx)")
  case (Inl x)
  then show ?thesis
    by (simp add: handleTransaction_def Let_def scanFrame_refl calibrationStep_refl)
next
  case msg: (Inr msg)
  show ?thesis
  proof (cases "getMessageStatus ms msg")
    case (Inl x)
    with msg show ?thesis
      by (simp add: handleTransaction_def Let_def scanFrame_refl calibrationStep_refl)
  next
    case st: (Inr status)
    show ?thesis
    proof (cases "status = READY_TO_PROVE")
      case False
      with msg st show ?thesis
        by (simp add: handleTransaction_def Let_def scanFrame_refl calibrationStep_refl)
    next
      case True
      show ?thesis
      proof (cases "calibrate ms (hash tx) p")
        case (Inl x)
        with msg st True show ?thesis
          by (simp add: handleTransaction_def Let_def scanFrame_refl calibrationStep_refl)
      next
        case cal: (Inr p1)
        note f1 = calibrate_frame[OF cal]
        show ?thesis
        proof (cases "populateTransaction_proveMessage ms (hash tx)")
          case (Inl x)
          with msg st True cal f1 show ?thesis
            by (simp add: handleTransaction_def Let_def)
        next
          case pop: (Inr cd)
          let ?cds = "calldatas @
                 [\<lparr>target = OptimismPortal_target ms, callData = cd,
                   blockHeight = number block, txHash = hash tx,
                   ccMessage = msg, err = None\<rparr>]"
          show ?thesis
          proof (cases "isOvertargetGas (multicaller p1) (length ?cds)")
            case False
            with msg st True cal pop f1 show ?thesis
              by (simp add: handleTransaction_def Let_def)
          next
            case over: True
            have "?cds \<noteq> []" by simp
            from flush_returns[OF this] obtain r2 p2 where
              fl: "flush ct ?cds p1 = Some (r2, p2)" by blast
            from flush_frame[OF fl, of ms] f1 have f2: "scanFrame p p2 \<and> calibrationStep ms p p2"
              by (blast intro: scanFrame_trans calibrationStep_trans)
            have "handleTransaction ms ct block tx calldatas p =
                    Some (case r2 of Inl x \<Rightarrow> Inl x | Inr u \<Rightarrow> Inr [], p2)"
              using msg st True cal pop over fl
              by (cases r2) (simp_all add: handleTransaction_def Let_def)
            with f2 show ?thesis by simp
          qed
        qed
      qed
    qed
  qed
qed

lemma handleTransactions_frame:
  "\<exists>r p'. handleTransactions ms ct block txs calldatas p = Some (r, p') \<and>
     scanFrame p p' \<and> calibrationStep ms p p'"
proof (induction txs arbitrary: calldatas p)
  case Nil
  show ?case by (simp add: scanFrame_refl calibrationStep_refl)
next
  case (Cons tx rest)
  from handleTransaction_frame[of ms ct block tx calldatas p] obtain r1 p1 where
    h: "handleTransaction ms ct block tx calldatas p = Some (r1, p1)"
    and f1: "scanFrame p p1" "calibrationStep ms p p1" by blast
  show ?case
  proof (cases r1)
    case (Inl x)
    with h f1 show ?thesis by simp
  next
    case (Inr calldatas1)
    from Cons.IH[of calldatas1 p1] obtain r2 p2 where
      h2: "handleTransactions ms ct block rest calldatas1 p1 = Some (r2, p2)"
      and f2: "scanFrame p1 p2" "calibrationStep ms p1 p2" by blast
    from f1 f2 have "scanFrame p p2 \<and> calibrationStep ms p p2"
      by (blast intro: scanFrame_trans calibrationStep_trans)
    with h Inr h2 show ?thesis by simp
  qed
qed

lemma handleSingleBlock_frame:
  "\<exists>r p'. handleSingleBlock ms ct height calldatas p = Some (r, p') \<and>
     fetched p' = fetched p @ [height] \<and>
     highestKnownL2 (state p') = highestKnownL2 (state p) \<and>
     l2blockConfirmations p' = l2blockConfirmations p \<and>
     initalIteration p' = initalIteration p \<and>
     calibrationStep ms p p'"
proof -
  let ?p0 = "p\<lparr>fetched := fetched p @ [height]\<rparr>"
  have c0: "calibrationStep ms p ?p0" by (simp add: calibrationStep_def)
  show ?thesis
  proof (cases "getBlockWithTransactions ms height")
    case (Inl x)
    with c0 show ?thesis by (simp add: handleSingleBlock_def Let_def)
  next
    case (Inr bo)
    show ?thesis
    proof (cases bo)
      case None
      with Inr c0 show ?thesis by (simp add: handleSingleBlock_def Let_def)
    next
      case (Some block)
      show ?thesis
      proof (cases "transactions block = []")
        case True
        with Inr Some c0 show ?thesis by (simp add: handleSingleBlock_def Let_def)
      next
        case False
        from handleTransactions_frame[of ms ct block "transactions block" calldatas ?p0]
        obtain r p' where
          h: "handleTransactions ms ct block (transactions block) calldatas ?p0 = Some (r, p')"
          and f: "scanFrame ?p0 p'" "calibrationStep ms ?p0 p'" by blast
        from c0 f(2) have "calibrationStep ms p p'" by (rule calibrationStep_trans)
        with Inr Some False h f(1) show ?thesis
          by (simp add: handleSingleBlock_def Let_def scanFrame_def)
      qed
    qed
  qed
qed

section \<open>The scan window\<close>

lemma scanLoop_done:
  "\<not> h \<le> endScanHeight p \<Longrightarrow> scanLoop ms ct h calldatas p = Some (Inr calldatas, p)"
  by (subst scanLoop.simps) simp

lemma scanLoop_step:
  "h \<le> endScanHeight p \<Longrightarrow>
     scanLoop ms ct h calldatas p =
       Option.bind (handleSingleBlock ms ct h calldatas p) (\<lambda>(r, p1).
         case r of
           Inl x \<Rightarrow> Some (Inl x, p1)
         | Inr calldatas1 \<Rightarrow> scanLoop ms ct (h + 1) calldatas1 p1)"
  by (subst scanLoop.simps) simp

text \<open>
  The loop always returns. The heights it asks from the provider are an initial segment of
  the window, in increasing order, and the whole window unless a block throws.
\<close>

lemma scanLoop_visits:
  "\<exists>r p'. scanLoop ms ct h calldatas p = Some (r, p') \<and>
     (\<exists>k. fetched p' = fetched p @ take k [h..endScanHeight p]) \<and>
     (\<not> isl r \<longrightarrow> fetched p' = fetched p @ [h..endScanHeight p]) \<and>
     (isl r \<longrightarrow>
        (\<exists>k. k < length [h..endScanHeight p] \<and>
           fetched p' = fetched p @ take (Suc k) [h..endScanHeight p])) \<and>
     highestKnownL2 (state p') = highestKnownL2 (state p) \<and>
     l2blockConfirmations p' = l2blockConfirmations p \<and>
     initalIteration p' = initalIteration p \<and>
     calibrationStep ms p p'"
proof (induction "nat (endScanHeight p + 1 - h)" arbitrary: h calldatas p)
  case 0
  then have "\<not> h \<le> endScanHeight p" by simp
  then show ?case
    by (simp add: scanLoop_done calibrationStep_refl)
next
  case (Suc n)
  then have le: "h \<le> endScanHeight p" by simp
  from handleSingleBlock_frame[of ms ct h calldatas p] obtain r1 p1 where
    hs: "handleSingleBlock ms ct h calldatas p = Some (r1, p1)"
    and f1: "fetched p1 = fetched p @ [h]"
      "highestKnownL2 (state p1) = highestKnownL2 (state p)"
      "l2blockConfirmations p1 = l2blockConfirmations p"
      "initalIteration p1 = initalIteration p"
    and c1: "calibrationStep ms p p1" by blast
  from f1 have e1: "endScanHeight p1 = endScanHeight p" by (simp add: endScanHeight_def)
  from le have up: "[h..endScanHeight p] = h # [h + 1..endScanHeight p]"
    by (simp add: upto_rec1)
  show ?case
  proof (cases r1)
    case (Inl x)
    have t1: "fetched p1 = fetched p @ take (Suc 0) [h..endScanHeight p]"
      using f1(1) up by simp
    then have "\<exists>k. fetched p1 = fetched p @ take k [h..endScanHeight p]" by blast
    moreover have "\<exists>k. k < length [h..endScanHeight p] \<and>
        fetched p1 = fetched p @ take (Suc k) [h..endScanHeight p]"
    proof (intro exI conjI)
      show "0 < length [h..endScanHeight p]" by (subst up) simp
      show "fetched p1 = fetched p @ take (Suc 0) [h..endScanHeight p]" by (rule t1)
    qed
    ultimately show ?thesis
      using Inl hs f1 c1 by (simp add: scanLoop_step[OF le])
  next
    case (Inr calldatas1)
    from Suc.hyps(2) e1 have "n = nat (endScanHeight p1 + 1 - (h + 1))" by simp
    from Suc.hyps(1)[OF this, of calldatas1] obtain r p' k where
      sl: "scanLoop ms ct (h + 1) calldatas1 p1 = Some (r, p')"
      and v: "fetched p' = fetched p1 @ take k [h + 1..endScanHeight p1]"
      and a: "\<not> isl r \<longrightarrow> fetched p' = fetched p1 @ [h + 1..endScanHeight p1]"
      and b: "isl r \<longrightarrow>
        (\<exists>k. k < length [h + 1..endScanHeight p1] \<and>
           fetched p' = fetched p1 @ take (Suc k) [h + 1..endScanHeight p1])"
      and f2: "highestKnownL2 (state p') = highestKnownL2 (state p1)"
        "l2blockConfirmations p' = l2blockConfirmations p1"
        "initalIteration p' = initalIteration p1"
      and c2: "calibrationStep ms p1 p'" by blast
    have "fetched p' = fetched p @ take (Suc k) [h..endScanHeight p]"
      using v f1(1) e1 up by simp
    then have v': "\<exists>k. fetched p' = fetched p @ take k [h..endScanHeight p]" by blast
    have a': "\<not> isl r \<longrightarrow> fetched p' = fetched p @ [h..endScanHeight p]"
      using a f1(1) e1 up by simp
    have b': "isl r \<longrightarrow>
        (\<exists>k. k < length [h..endScanHeight p] \<and>
           fetched p' = fetched p @ take (Suc k) [h..endScanHeight p])"
    proof
      assume "isl r"
      with b obtain j where j: "j < length [h + 1..endScanHeight p1]"
        "fetched p' = fetched p1 @ take (Suc j) [h + 1..endScanHeight p1]" by blast
      have "Suc j < length [h..endScanHeight p]" using j(1) e1 by (subst up) simp
      moreover have "fetched p' = fetched p @ take (Suc (Suc j)) [h..endScanHeight p]"
        using j(2) f1(1) e1 by (subst up) simp
      ultimately show "\<exists>k. k < length [h..endScanHeight p] \<and>
           fetched p' = fetched p @ take (Suc k) [h..endScanHeight p]" by blast
    qed
    from c1 c2 have c: "calibrationStep ms p p'" by (rule calibrationStep_trans)
    have "scanLoop ms ct h calldatas p = Some (r, p')"
      using hs Inr sl by (simp add: scanLoop_step[OF le])
    with v' a' b' f1 f2 c show ?thesis by simp
  qed
qed

lemma handleL2Reorg_frame:
  "fetched (handleL2Reorg latest p) = fetched p \<and>
   multicaller (handleL2Reorg latest p) = multicaller p \<and>
   l2blockConfirmations (handleL2Reorg latest p) = l2blockConfirmations p \<and>
   initalIteration (handleL2Reorg latest p) = initalIteration p"
  by (simp add: reorg_defs)

lemma handleMultipleBlock_scan:
  assumes "getBlockNumber ms = Inr latest" "latest \<noteq> highestKnownL2 (state p)"
  shows "\<exists>r p'. handleMultipleBlock ms ct p = Some (r, p') \<and>
     (\<exists>k. fetched p' = fetched p @
             take k [fst (startScanHeight (beforeScan latest p))..latest - l2blockConfirmations p]) \<and>
     (\<not> isl r \<longrightarrow>
        fetched p' = fetched p @
          [fst (startScanHeight (beforeScan latest p))..latest - l2blockConfirmations p]) \<and>
     \<not> initalIteration p' \<and>
     calibrationStep ms p p'"
proof -
  let ?p2 = "beforeScan latest p"
  obtain start p3 where st: "startScanHeight ?p2 = (start, p3)" by (cases "startScanHeight ?p2")
  have p2: "fetched ?p2 = fetched p" "multicaller ?p2 = multicaller p"
    "l2blockConfirmations ?p2 = l2blockConfirmations p" "highestKnownL2 (state ?p2) = latest"
    by (simp_all add: beforeScan_def updateHighestKnownL2_def handleL2Reorg_frame)
  from st p2 have p3: "fetched p3 = fetched p" "multicaller p3 = multicaller p"
    "endScanHeight p3 = latest - l2blockConfirmations p" "\<not> initalIteration p3"
    by (auto simp: startScanHeight_def endScanHeight_def split: if_splits)
  from scanLoop_visits[of ms ct start "[]" p3] obtain r4 p4 k where
    sl: "scanLoop ms ct start [] p3 = Some (r4, p4)"
    and v: "fetched p4 = fetched p3 @ take k [start..endScanHeight p3]"
    and w: "\<not> isl r4 \<longrightarrow> fetched p4 = fetched p3 @ [start..endScanHeight p3]"
    and f4: "initalIteration p4 = initalIteration p3"
    and c4: "calibrationStep ms p3 p4" by blast
  from c4 p3(2) have c4': "calibrationStep ms p p4" by (simp add: calibrationStep_def)
  from v p3 st have v': "fetched p4 = fetched p @
      take k [fst (startScanHeight ?p2)..latest - l2blockConfirmations p]" by simp
  from w p3 st have w': "\<not> isl r4 \<longrightarrow> fetched p4 = fetched p @
      [fst (startScanHeight ?p2)..latest - l2blockConfirmations p]" by simp
  have hm: "handleMultipleBlock ms ct p =
      (case r4 of Inl x \<Rightarrow> Some (Inl x, p4)
       | Inr calldatas \<Rightarrow> if 0 < length calldatas then flush ct calldatas p4 else Some (Inr (), p4))"
    using assms st sl
    by (simp add: handleMultipleBlock_def beforeScan_def Let_def)
  show ?thesis
  proof (cases r4)
    case (Inl x)
    with hm v' f4 p3(4) c4' show ?thesis by auto
  next
    case (Inr calldatas)
    with w' have whole: "fetched p4 = fetched p @
      [fst (startScanHeight ?p2)..latest - l2blockConfirmations p]" by simp
    show ?thesis
    proof (cases "calldatas = []")
      case True
      with hm Inr v' whole f4 p3(4) c4' show ?thesis by auto
    next
      case False
      from flush_returns[OF False] obtain r p' where fl: "flush ct calldatas p4 = Some (r, p')"
        by blast
      from flush_frame[OF fl, of ms] c4' have "calibrationStep ms p p'"
        by (blast intro: calibrationStep_trans)
      moreover from flush_frame[OF fl, of ms] have "fetched p' = fetched p4"
        "initalIteration p' = initalIteration p4" by (simp_all add: scanFrame_def)
      ultimately show ?thesis
        using hm Inr False fl v' whole f4 p3(4) by auto
    qed
  qed
qed

lemma handleMultipleBlock_returns:
  "\<exists>r p'. handleMultipleBlock ms ct p = Some (r, p') \<and> calibrationStep ms p p' \<and>
     (initalIteration p' \<longrightarrow> initalIteration p)"
proof (cases "getBlockNumber ms")
  case (Inl x)
  then show ?thesis by (simp add: handleMultipleBlock_def calibrationStep_refl)
next
  case (Inr latest)
  show ?thesis
  proof (cases "latest = highestKnownL2 (state p)")
    case True
    with Inr show ?thesis by (simp add: handleMultipleBlock_def calibrationStep_refl)
  next
    case False
    from handleMultipleBlock_scan[OF Inr False, of ct] show ?thesis by blast
  qed
qed


lemmas scan_eval =
  handleSingleBlock_def handleTransaction_def calibrate_def isOvertargetGas_def
  computeExpectedMulticallGas_def endScanHeight_def startScanHeight_def Let_def
  toNumber_def double_products

lemma flush_reverting:
  "flush revertingContract [c] p =
     Some (Inl TypeError,
           p\<lparr>multicaller := afterFailedEstimate (Error ''execution reverted'') [c] (multicaller p)\<rparr>)"
proof -
  have est: "estimateGas_tryAggregate revertingContract True (convertToCalls [c]) =
      Inl (Error ''execution reverted'')"
    by (simp add: revertingContract_def)
  have len: "length [c] = 1" by simp
  note mc = multicall_single_failed[OF est len, of None "multicaller p"]
  show ?thesis
    by (simp add: flush_def mc handleMulticallResult_def updateHighestCheckedL2_def
        reduceMaxCall_def)
qed



section \<open>Calibration\<close>

text \<open>
  Claim C6. When the estimation of a batch fails with a message that contains
  \<open>gas required exceeds allowance\<close>, \<open>singleCallGas\<close> is 0 when \<open>multicall\<close> returns,
  whatever it was before (and \<open>multicall\<close> returns unless the batch is empty). From 0,
  \<open>multicall\<close> leaves it 0; the calibration of the Scanner stores a successful single-call
  estimate and throws, storing nothing, when the estimate fails; and a whole
  \<open>handleMultipleBlock\<close> returns with 0 or with a successful single-call estimate.
\<close>

theorem calibration_reset:
  assumes "estimateGas_tryAggregate ct True (convertToCalls calls) = Inl e"
    and "str_includes (message e) ''gas required exceeds allowance''"
  shows "(case multicall ct calls cb m of
            None \<Rightarrow> calls = []
          | Some (r, m') \<Rightarrow> singleCallGas m' = Some (Finite 0)) \<and>
         (multicall ct2 calls2 cb2 (m\<lparr>singleCallGas := Some (Finite 0)\<rparr>) = Some (r2, m2) \<longrightarrow>
            singleCallGas m2 = Some (Finite 0)) \<and>
         (singleCallGas (multicaller p) = Some (Finite 0) \<longrightarrow>
            calibrate ms txh p =
              (case estimateGas_proveMessage ms txh of
                 Inl x \<Rightarrow> Inl x
               | Inr big \<Rightarrow>
                   (case toNumber big of
                      Inl e \<Rightarrow> Inl (Thrown e)
                    | Inr estimatedGas \<Rightarrow>
                        Inr (p\<lparr>multicaller :=
                               (multicaller p)\<lparr>singleCallGas := Some estimatedGas\<rparr>\<rparr>))) \<and>
            (\<exists>r p'. handleMultipleBlock ms ct2 p = Some (r, p') \<and>
               (singleCallGas (multicaller p') = Some (Finite 0) \<or>
                (\<exists>txh estimatedGas.
                   estimateGas_proveMessage ms txh = Inr estimatedGas \<and>
                   estimatedGas < 2 ^ 53 \<and>
                   singleCallGas (multicaller p') = Some (Finite (of_nat estimatedGas))))))"
proof -
  have a: "case multicall ct calls cb m of
            None \<Rightarrow> calls = []
          | Some (r, m') \<Rightarrow> singleCallGas m' = Some (Finite 0)"
  proof (cases "multicall ct calls cb m")
    case None
    with multicall_returns[of calls ct cb m] show ?thesis by auto
  next
    case (Some y)
    obtain r m' where y: "y = (r, m')" by (cases y)
    let ?m2 = "afterFailedEstimate e calls m"
    have g2: "singleCallGas ?m2 = Some (Finite 0)"
      using assms(2) by (simp add: afterFailedEstimate_def Let_def)
    have "singleCallGas m' = Some (Finite 0)"
    proof (cases "length calls = 1")
      case True
      from multicall_single_failed[OF assms(1) True, of cb m] Some y g2 show ?thesis by simp
    next
      case False
      obtain a b where sp: "splitArray calls = (a, b)" by (cases "splitArray calls")
      from Some y multicall_split[OF assms(1) False sp, of cb m] obtain r1 m3 where
        r1: "multicall ct a cb ?m2 = Some (r1, m3)"
        by (auto split: Option.bind_splits)
      from multicall_gas[OF r1] g2 have g3: "singleCallGas m3 = Some (Finite 0)" by auto
      show ?thesis
      proof (cases r1)
        case (Inl x)
        with Some y multicall_split[OF assms(1) False sp, of cb m] r1 g3 show ?thesis by simp
      next
        case (Inr results)
        with Some y multicall_split[OF assms(1) False sp, of cb m] r1 obtain r2 m4 where
          r2: "multicall ct b cb m3 = Some (r2, m4)" and m4: "m' = m4"
          by (auto split: Option.bind_splits sum.splits)
        from multicall_gas[OF r2] g3 m4 show ?thesis by auto
      qed
    qed
    with Some y show ?thesis by simp
  qed
  have b: "multicall ct2 calls2 cb2 (m\<lparr>singleCallGas := Some (Finite 0)\<rparr>) = Some (r2, m2) \<longrightarrow>
            singleCallGas m2 = Some (Finite 0)"
    using multicall_gas[of ct2 calls2 cb2 "m\<lparr>singleCallGas := Some (Finite 0)\<rparr>" "(r2, m2)"] by auto
  have c: "singleCallGas (multicaller p) = Some (Finite 0) \<longrightarrow>
            calibrate ms txh p =
              (case estimateGas_proveMessage ms txh of
                 Inl x \<Rightarrow> Inl x
               | Inr big \<Rightarrow>
                   (case toNumber big of
                      Inl e \<Rightarrow> Inl (Thrown e)
                    | Inr estimatedGas \<Rightarrow>
                        Inr (p\<lparr>multicaller :=
                               (multicaller p)\<lparr>singleCallGas := Some estimatedGas\<rparr>\<rparr>)))"
    by (simp add: calibrate_def)
  have d: "singleCallGas (multicaller p) = Some (Finite 0) \<longrightarrow>
            (\<exists>r p'. handleMultipleBlock ms ct2 p = Some (r, p') \<and>
               (singleCallGas (multicaller p') = Some (Finite 0) \<or>
                (\<exists>txh estimatedGas.
                   estimateGas_proveMessage ms txh = Inr estimatedGas \<and>
                   estimatedGas < 2 ^ 53 \<and>
                   singleCallGas (multicaller p') = Some (Finite (of_nat estimatedGas)))))"
    using handleMultipleBlock_returns[of ms ct2 p]
    by (auto simp: calibrationStep_def)
  from a b c d show ?thesis by blast
qed

theorem calibration_reset_witness:
  "estimateGas_tryAggregate ownErrorContract True (convertToCalls threeCalls) =
     Inl (Error ''gas required exceeds allowance (30000000)'') \<and>
   str_includes ''gas required exceeds allowance (30000000)'' ''gas required exceeds allowance'' \<and>
   map_option (singleCallGas \<circ> snd)
     (multicall ownErrorContract threeCalls None (multicaller (calibratedProver (Finite 100000)))) =
     Some (Some (Finite 0)) \<and>
   map_option (singleCallGas \<circ> snd)
     (multicall revertingContract [call0 5 ''0xa''] None (multicaller (calibratedProver (Finite 0)))) =
     Some (Some (Finite 0)) \<and>
   singleCallGas (multicaller (calibratedProver (Finite 0))) = Some (Finite 0) \<and>
   map_option (singleCallGas \<circ> multicaller \<circ> snd)
     (handleMultipleBlock quietChain revertingContract (calibratedProver (Finite 0))) = Some (Some (Finite 0)) \<and>
   map_option (singleCallGas \<circ> multicaller \<circ> snd)
     (handleMultipleBlock oneMessageChain revertingContract (calibratedProver (Finite 0))) =
     Some (Some (Finite 50000))"
proof -
  have est: "estimateGas_tryAggregate ownErrorContract True (convertToCalls threeCalls) =
     Inl (Error ''gas required exceeds allowance (30000000)'')"
    by (simp add: ownErrorContract_def threeCalls_def convertToCalls_def)
  have inc: "str_includes (message (Error ''gas required exceeds allowance (30000000)''))
      ''gas required exceeds allowance''" by simp
  have est1: "estimateGas_tryAggregate revertingContract True (convertToCalls [call0 5 ''0xa'']) =
      Inl (Error ''execution reverted'')"
    by (simp add: revertingContract_def)
  have len: "length [call0 5 ''0xa''] = 1" by simp
  note mc = multicall_single_failed[OF est1 len, of None "multicaller (calibratedProver (Finite 0))"]
  from multicall_returns[of threeCalls ownErrorContract None "multicaller (calibratedProver (Finite 100000))"]
  obtain r m' where
    r: "multicall ownErrorContract threeCalls None (multicaller (calibratedProver (Finite 100000))) = Some (r, m')"
    by (auto simp: threeCalls_def)
  from calibration_reset [OF est inc, where cb = None and m = "multicaller (calibratedProver (Finite 100000))"] r
  have g: "singleCallGas m' = Some (Finite 0)" by simp
  have f2: "str_includes ''gas required exceeds allowance (30000000)''
      ''gas required exceeds allowance''" by simp
  have f3: "map_option (singleCallGas \<circ> snd)
     (multicall ownErrorContract threeCalls None (multicaller (calibratedProver (Finite 100000)))) =
     Some (Some (Finite 0))"
    using r g by simp
  have f4: "map_option (singleCallGas \<circ> snd)
     (multicall revertingContract [call0 5 ''0xa''] None (multicaller (calibratedProver (Finite 0)))) =
     Some (Some (Finite 0))"
    by (simp add: mc afterFailedEstimate_def Let_def) (simp add: calibratedProver_def)
  have f5: "singleCallGas (multicaller (calibratedProver (Finite 0))) = Some (Finite 0)"
    by (simp add: calibratedProver_def)
  have f6: "map_option (singleCallGas \<circ> multicaller \<circ> snd)
     (handleMultipleBlock quietChain revertingContract (calibratedProver (Finite 0))) = Some (Some (Finite 0))"
    by (simp add: scanLoop_step scanLoop_done scan_eval quietChain_def prover0_def
      calibratedProver_def handleMultipleBlock_def updateHighestKnownL2_def)
  have f7: "map_option (singleCallGas \<circ> multicaller \<circ> snd)
     (handleMultipleBlock oneMessageChain revertingContract (calibratedProver (Finite 0))) =
     Some (Some (Finite 50000))"
    by (simp add: scanLoop_step scanLoop_done scan_eval oneMessageChain_def prover0_def
      calibratedProver_def handleMultipleBlock_def updateHighestKnownL2_def flush_reverting
      afterFailedEstimate_def)
  from est f2 f3 f4 f5 f6 f7 show ?thesis by blast
qed

end
